theory Spec2Isabelle
  imports Main "HOL-Library.RBT" "HOL-Library.List_Lexorder" "HOL-Library.Char_ord"
begin

section \<open>Strings and failures\<close>

text \<open>
  A \<open>std::string\<close> is a list of bytes.  Two characters cannot be written inside an
  Isabelle string literal and get names: the backslash and the line feed.  A C++ literal
  such as \<^verbatim>\<open>"\"\\\"\" char*"\<close> therefore reads \<open>''"'' @ [bsl] @ ''"" char*''\<close> below.
\<close>

definition bsl :: char where
  "bsl = CHR 0x5C"

definition nl :: char where
  "nl = CHR 0x0A"

definition cr :: char where
  "cr = CHR 0x0D"

text \<open>
  Everything that leaves a C++ function other than by \<open>return\<close>: an exception of the JSON
  library (\<open>Type_error\<close>), of the standard library (\<open>Out_of_range\<close>, \<open>Length_error\<close>,
  \<open>Invalid_argument\<close>), the \<open>std::runtime_error\<close> thrown by \<open>check_errors\<close>, and the places
  where the standard leaves the behaviour undefined (\<open>Undefined_behaviour\<close>).
\<close>

datatype failure =
    Type_error
  | Out_of_range
  | Length_error
  | Invalid_argument
  | Undefined_behaviour
  | Runtime_error string

definition INT_MAX :: int where
  "INT_MAX = 2147483647"

definition INT_MIN :: int where
  "INT_MIN = - 2147483648"

section \<open>String utilities\<close>

text \<open>\<open>join(begin, end, separator)\<close>: the elements with the separator between them.\<close>

fun join :: "string list \<Rightarrow> string \<Rightarrow> string" where
  "join [] separator = []"
| "join (x # xs) separator = x @ concat (map (\<lambda>y. separator @ y) xs)"

text \<open>\<open>repeat(str, n)\<close>: \<open>n\<close> copies of \<open>str\<close>, appended one after the other.\<close>

definition repeat :: "string \<Rightarrow> nat \<Rightarrow> string" where
  "repeat str n = concat (replicate n str)"

text \<open>
  The lambda \<open>opt_repetitions\<close> of \<open>build_repetition\<close>, with the captured \<open>item_rule\<close> and
  \<open>separator_rule\<close> as parameters.  It calls itself at most once, with
  \<open>prefix_with_sep = true\<close>.  \<open>repeat\<close> takes a \<open>size_t\<close>: a negative count is converted to a
  count near \<open>2^64\<close> and the string cannot be built (\<open>Length_error\<close>).
\<close>

function opt_repetitions :: "string \<Rightarrow> string \<Rightarrow> int \<Rightarrow> bool \<Rightarrow> failure + string" where
  "opt_repetitions item_rule separator_rule up_to_n prefix_with_sep =
     (let content = (if prefix_with_sep \<and> separator_rule \<noteq> []
                     then separator_rule @ '' '' @ item_rule else item_rule)
      in if up_to_n = 0 then Inr []
         else if up_to_n = 1 then Inr (''('' @ content @ '')?'')
         else if separator_rule \<noteq> [] \<and> \<not> prefix_with_sep then
           (case opt_repetitions item_rule separator_rule (up_to_n - 1) True of
              Inl e \<Rightarrow> Inl e
            | Inr r \<Rightarrow> Inr (''('' @ content @ '' '' @ r @ '')?''))
         else if up_to_n < 0 then Inl Length_error
         else Inr (butlast (repeat (''('' @ content @ '' '') (nat up_to_n))
                   @ repeat '')?'' (nat up_to_n)))"
  by pat_completeness auto
termination
  by (relation "measure (\<lambda>(i, s, n, p). if p then 0 else 1)") auto

text \<open>
  \<open>build_repetition(item_rule, min_items, max_items, separator_rule, item_rule_is_literal)\<close>.
  The literal branch strips the first and the last character of \<open>item_rule\<close>, which is
  undefined on a string shorter than two characters; \<open>max_items - min_items\<close> is an \<open>int\<close>
  subtraction, undefined when it leaves the range of \<open>int\<close>.
\<close>

definition build_repetition :: "string \<Rightarrow> int \<Rightarrow> int \<Rightarrow> string \<Rightarrow> bool \<Rightarrow> failure + string" where
  "build_repetition item_rule min_items max_items separator_rule item_rule_is_literal =
     (if separator_rule = [] \<and> min_items = 0 \<and> max_items = 1 then Inr (item_rule @ ''?'')
      else if separator_rule = [] \<and> min_items = 1 \<and> max_items = INT_MAX then Inr (item_rule @ ''+'')
      else
        case (if min_items > 0 then
                (if item_rule_is_literal \<and> separator_rule = [] then
                   (if length item_rule < 2 then Inl Undefined_behaviour
                    else Inr ([CHR 0x22] @ repeat (butlast (tl item_rule)) (nat min_items) @ [CHR 0x22]))
                 else Inr (join (replicate (nat min_items) item_rule)
                             (if separator_rule = [] then '' '' else '' '' @ separator_rule @ '' '')))
              else Inr []) of
          Inl e \<Rightarrow> Inl e
        | Inr result0 \<Rightarrow>
            (let result = (if min_items > 0 \<and> max_items \<noteq> min_items then result0 @ '' '' else result0)
             in if max_items \<noteq> INT_MAX then
                  (if max_items - min_items < INT_MIN \<or> INT_MAX < max_items - min_items
                   then Inl Undefined_behaviour
                   else case opt_repetitions item_rule separator_rule (max_items - min_items) (min_items > 0) of
                          Inl e \<Rightarrow> Inl e
                        | Inr s \<Rightarrow> Inr (result @ s))
                else
                  (let item_operator = ''('' @ (if separator_rule = [] then [] else separator_rule @ '' '')
                                        @ item_rule @ '')''
                   in if min_items = 0 \<and> separator_rule \<noteq> []
                      then Inr (''('' @ item_rule @ '' '' @ item_operator @ ''*)?'')
                      else Inr (result @ item_operator @ ''*''))))"

section \<open>JSON values\<close>

text \<open>
  The JSON library (\<open>nlohmann::ordered_json\<close>) is not part of the repository.  The model keeps
  what the converter uses of it: a value is null, a boolean, an integer, a string, an array
  or an object whose members keep their insertion order (numbers with a fraction or an
  exponent are left out).  Strings hold well-formed UTF-8, as the library's parser
  guarantees, so \<open>dump\<close> never fails on them.
\<close>

datatype json =
    JNull
  | JBool bool
  | JInt int
  | JString string
  | JArray "json list"
  | JObject "(string \<times> json) list"

text \<open>\<open>std::to_string\<close> on a non-negative count, and on an \<open>int\<close>.\<close>

fun to_string :: "nat \<Rightarrow> string" where
  "to_string n = (if n < 10 then [''0123456789'' ! n]
                  else to_string (n div 10) @ [''0123456789'' ! (n mod 10)])"

definition int_to_string :: "int \<Rightarrow> string" where
  "int_to_string i = (if i < 0 then CHR ''-'' # to_string (nat (- i)) else to_string (nat i))"

text \<open>\<open>j.contains(key)\<close>: false on everything that is not an object.\<close>

definition contains :: "json \<Rightarrow> string \<Rightarrow> bool" where
  "contains j key = (case j of JObject kvs \<Rightarrow> map_of kvs key \<noteq> None | _ \<Rightarrow> False)"

text \<open>
  \<open>j[key]\<close>.  Every use in the source stands behind a \<open>contains\<close> test of the same key; the
  value for an absent key (\<open>JNull\<close>) is never read.
\<close>

definition json_at :: "json \<Rightarrow> string \<Rightarrow> json" where
  "json_at j key = (case j of JObject kvs \<Rightarrow> (case map_of kvs key of Some v \<Rightarrow> v | None \<Rightarrow> JNull)
                            | _ \<Rightarrow> JNull)"

text \<open>
  A range-\<open>for\<close> over a JSON value visits the elements of an array, the member values of an
  object, nothing for null, and a scalar itself once.  \<open>items()\<close> pairs them with their
  keys: the member name, the decimal index, or the empty string for a scalar.
\<close>

definition elements :: "json \<Rightarrow> json list" where
  "elements j = (case j of JArray xs \<Rightarrow> xs | JObject kvs \<Rightarrow> map snd kvs | JNull \<Rightarrow> [] | _ \<Rightarrow> [j])"

definition items :: "json \<Rightarrow> (string \<times> json) list" where
  "items j = (case j of JObject kvs \<Rightarrow> kvs
                      | JArray xs \<Rightarrow> zip (map to_string [0..<length xs]) xs
                      | JNull \<Rightarrow> []
                      | _ \<Rightarrow> [([], j)])"

definition is_null :: "json \<Rightarrow> bool" where
  "is_null j = (j = JNull)"

definition is_array :: "json \<Rightarrow> bool" where
  "is_array j = (case j of JArray _ \<Rightarrow> True | _ \<Rightarrow> False)"

definition is_object :: "json \<Rightarrow> bool" where
  "is_object j = (case j of JObject _ \<Rightarrow> True | _ \<Rightarrow> False)"

definition is_string :: "json \<Rightarrow> bool" where
  "is_string j = (case j of JString _ \<Rightarrow> True | _ \<Rightarrow> False)"

definition is_number_integer :: "json \<Rightarrow> bool" where
  "is_number_integer j = (case j of JInt _ \<Rightarrow> True | _ \<Rightarrow> False)"

text \<open>\<open>j.empty()\<close>: null is empty, a scalar is not.\<close>

definition empty_json :: "json \<Rightarrow> bool" where
  "empty_json j = (case j of JNull \<Rightarrow> True | JArray xs \<Rightarrow> xs = [] | JObject kvs \<Rightarrow> kvs = []
                            | _ \<Rightarrow> False)"

text \<open>
  The typed reads throw \<open>type_error\<close> on a value of another kind.  \<open>get<int>()\<close> also accepts
  a boolean, and narrows a 64-bit integer to 32 bits.
\<close>

definition get_string :: "json \<Rightarrow> failure + string" where
  "get_string j = (case j of JString s \<Rightarrow> Inr s | _ \<Rightarrow> Inl Type_error)"

definition get_vector :: "json \<Rightarrow> failure + json list" where
  "get_vector j = (case j of JArray xs \<Rightarrow> Inr xs | _ \<Rightarrow> Inl Type_error)"

definition get_int :: "json \<Rightarrow> failure + int" where
  "get_int j = (case j of JInt i \<Rightarrow> Inr ((i + 2147483648) mod 4294967296 - 2147483648)
                        | JBool b \<Rightarrow> Inr (if b then 1 else 0)
                        | _ \<Rightarrow> Inl Type_error)"

text \<open>
  \<open>dump()\<close>: the compact serialisation.  In a string the quote, the backslash and the
  control characters are escaped.
\<close>

definition hex_digit :: "nat \<Rightarrow> char" where
  "hex_digit d = ''0123456789abcdef'' ! d"

definition dump_char :: "char \<Rightarrow> string" where
  "dump_char c =
     (if c = CHR 0x22 then [bsl, CHR 0x22]
      else if c = bsl then [bsl, bsl]
      else if c = CHR 0x08 then [bsl, CHR ''b'']
      else if c = CHR 0x0C then [bsl, CHR ''f'']
      else if c = nl then [bsl, CHR ''n'']
      else if c = cr then [bsl, CHR ''r'']
      else if c = CHR 0x09 then [bsl, CHR ''t'']
      else if (of_char c :: nat) < 32
        then [bsl, CHR ''u'', CHR ''0'', CHR ''0'', hex_digit (of_char c div 16), hex_digit (of_char c mod 16)]
      else [c])"

definition dump_string :: "string \<Rightarrow> string" where
  "dump_string s = [CHR 0x22] @ concat (map dump_char s) @ [CHR 0x22]"

fun dump :: "json \<Rightarrow> string" where
  "dump JNull = ''null''"
| "dump (JBool b) = (if b then ''true'' else ''false'')"
| "dump (JInt i) = int_to_string i"
| "dump (JString s) = dump_string s"
| "dump (JArray xs) = ''['' @ join (map dump xs) '','' @ '']''"
| "dump (JObject kvs) = ''{'' @ join (map (\<lambda>(k, v). dump_string k @ '':'' @ dump v) kvs) '','' @ ''}''"

section \<open>Results\<close>

text \<open>
  A call either returns a value (\<open>Some (Inr x)\<close>), leaves by an exception or undefined
  behaviour (\<open>Some (Inl e)\<close>), or does not return within the given bound on nested calls and
  loop iterations (\<open>None\<close>).
\<close>

type_synonym 'a result = "(failure + 'a) option"

definition return :: "'a \<Rightarrow> 'a result" where
  "return x = Some (Inr x)"

definition throw :: "failure \<Rightarrow> 'a result" where
  "throw e = Some (Inl e)"

definition lift :: "failure + 'a \<Rightarrow> 'a result" where
  "lift r = Some r"

definition bind :: "'a result \<Rightarrow> ('a \<Rightarrow> 'b result) \<Rightarrow> 'b result" where
  "bind m f = (case m of None \<Rightarrow> None | Some (Inl e) \<Rightarrow> Some (Inl e) | Some (Inr x) \<Rightarrow> f x)"

text \<open>A \<open>for\<close> loop that threads the state and collects one result per element.\<close>

fun for_each :: "('a \<Rightarrow> 's \<Rightarrow> ('b \<times> 's) result) \<Rightarrow> 'a list \<Rightarrow> 's \<Rightarrow> ('b list \<times> 's) result" where
  "for_each f [] s = return ([], s)"
| "for_each f (x # xs) s =
     bind (f x s) (\<lambda>(y, s1). bind (for_each f xs s1) (\<lambda>(ys, s2). return (y # ys, s2)))"

section \<open>Grammar text\<close>

text \<open>\<open>split(str, delimiter)\<close>; both calls in the source pass a delimiter of one character.\<close>

fun split_from :: "string \<Rightarrow> char \<Rightarrow> string \<Rightarrow> string list" where
  "split_from [] d tok = [tok]"
| "split_from (c # cs) d tok = (if c = d then tok # split_from cs d [] else split_from cs d (tok @ [c]))"

definition split :: "string \<Rightarrow> char \<Rightarrow> string list" where
  "split str d = split_from str d []"

text \<open>
  \<open>regex_replace(name, INVALID_RULE_CHARS_RE, "-")\<close> with the expression \<^verbatim>\<open>[^a-zA-Z0-9-]+\<close>:
  each maximal run of other characters becomes one hyphen.
\<close>

definition valid_rule_char :: "char \<Rightarrow> bool" where
  "valid_rule_char c = ((CHR ''a'' \<le> c \<and> c \<le> CHR ''z'') \<or> (CHR ''A'' \<le> c \<and> c \<le> CHR ''Z'')
                         \<or> (CHR ''0'' \<le> c \<and> c \<le> CHR ''9'') \<or> c = CHR ''-'')"

function sanitize :: "string \<Rightarrow> string" where
  "sanitize [] = []"
| "sanitize (c # cs) = (if valid_rule_char c then c # sanitize cs
                        else CHR ''-'' # sanitize (dropWhile (\<lambda>x. \<not> valid_rule_char x) cs))"
  by pat_completeness auto
termination
  by (relation "measure length") (auto simp: length_dropWhile_le less_Suc_eq_le)

text \<open>
  \<open>format_literal\<close>: the characters matched by \<^verbatim>\<open>[\r\n"]\<close> are replaced by their entry in
  \<open>GRAMMAR_LITERAL_ESCAPES\<close>, and the result is put in double quotes.
\<close>

definition GRAMMAR_LITERAL_ESCAPES :: "(char \<times> string) list" where
  "GRAMMAR_LITERAL_ESCAPES =
     [(cr, [bsl, CHR ''r'']), (nl, [bsl, CHR ''n'']), (CHR 0x22, [bsl, CHR 0x22]),
      (CHR ''-'', [bsl, CHR ''-'']), (CHR '']'', [bsl, CHR '']''])]"

definition format_literal :: "string \<Rightarrow> string" where
  "format_literal literal =
     [CHR 0x22]
     @ concat (map (\<lambda>c. if c = cr \<or> c = nl \<or> c = CHR 0x22
                         then (case map_of GRAMMAR_LITERAL_ESCAPES c of Some e \<Rightarrow> e | None \<Rightarrow> [c])
                         else [c]) literal)
     @ [CHR 0x22]"

definition NON_LITERAL_SET :: "char set" where
  "NON_LITERAL_SET = set ''|.()[]{}*+?''"

definition ESCAPED_IN_REGEXPS_BUT_NOT_IN_LITERALS :: "char set" where
  "ESCAPED_IN_REGEXPS_BUT_NOT_IN_LITERALS = set ''[]()|{}*+?''"

section \<open>The built-in rules\<close>

definition SPACE_RULE :: string where
  \<open>SPACE_RULE = ''" "?''\<close>

record BuiltinRule =
  content :: string
  deps :: "string list"

definition up_to_15_digits :: string where
  "up_to_15_digits = (case build_repetition ''[0-9]'' 0 15 [] False of Inr s \<Rightarrow> s | Inl e \<Rightarrow> [])"

definition hex :: string where
  "hex = ''[0-9a-fA-F]''"

definition PRIMITIVE_RULES :: "(string \<times> BuiltinRule) list" where
  \<open>PRIMITIVE_RULES =
    [(''boolean'', \<lparr>content = ''("true" | "false") space'', deps = []\<rparr>),
     (''decimal-part'', \<lparr>content = ''[0-9] '' @ up_to_15_digits, deps = []\<rparr>),
     (''integral-part'', \<lparr>content = ''[0-9] | [1-9] '' @ up_to_15_digits, deps = []\<rparr>),
     (''number'', \<lparr>content = ''("-"? integral-part) ("." decimal-part)? ([eE] [-+]? integral-part)? space'',
                   deps = [''integral-part'', ''decimal-part'']\<rparr>),
     (''integer'', \<lparr>content = ''("-"? integral-part) space'', deps = [''integral-part'']\<rparr>),
     (''value'', \<lparr>content = ''object | array | string | number | boolean | null'',
                  deps = [''object'', ''array'', ''string'', ''number'', ''boolean'', ''null'']\<rparr>),
     (''object'', \<lparr>content = ''"{" space ( string ":" space value ("," space string ":" space value)* )? "}" space'',
                   deps = [''string'', ''value'']\<rparr>),
     (''array'', \<lparr>content = ''"[" space ( value ("," space value)* )? "]" space'', deps = [''value'']\<rparr>),
     (''uuid'', \<lparr>content = ''"'' @ [bsl] @ ''"" '' @ repeat hex 8 @ '' ''
                           @ ''"-" '' @ repeat hex 4 @ '' ''
                           @ ''"-" '' @ repeat hex 4 @ '' ''
                           @ ''"-" '' @ repeat hex 4 @ '' ''
                           @ ''"-" '' @ repeat hex 12 @ '' "'' @ [bsl] @ ''"" space'', deps = []\<rparr>),
     (''char'', \<lparr>content = ''[^"'' @ [bsl, bsl] @ ''] | "'' @ [bsl, bsl] @ ''" (["'' @ [bsl, bsl]
                           @ ''/bfnrt] | "u" [0-9a-fA-F] [0-9a-fA-F] [0-9a-fA-F] [0-9a-fA-F])'', deps = []\<rparr>),
     (''string'', \<lparr>content = ''"'' @ [bsl] @ ''"" char* "'' @ [bsl] @ ''"" space'', deps = [''char'']\<rparr>),
     (''null'', \<lparr>content = ''"null" space'', deps = []\<rparr>)]\<close>

definition STRING_FORMAT_RULES :: "(string \<times> BuiltinRule) list" where
  \<open>STRING_FORMAT_RULES =
    [(''date'', \<lparr>content = ''[0-9] [0-9] [0-9] [0-9] "-" ( "0" [1-9] | "1" [0-2] ) "-" ( "0" [1-9] | [1-2] [0-9] | "3" [0-1] )'',
                 deps = []\<rparr>),
     (''time'', \<lparr>content = ''([01] [0-9] | "2" [0-3]) ":" [0-5] [0-9] ":" [0-5] [0-9] ( "." [0-9] [0-9] [0-9] )? ( "Z" | ( "+" | "-" ) ( [01] [0-9] | "2" [0-3] ) ":" [0-5] [0-9] )'',
                 deps = []\<rparr>),
     (''date-time'', \<lparr>content = ''date "T" time'', deps = [''date'', ''time'']\<rparr>),
     (''date-string'', \<lparr>content = ''"'' @ [bsl] @ ''"" date "'' @ [bsl] @ ''"" space'', deps = [''date'']\<rparr>),
     (''time-string'', \<lparr>content = ''"'' @ [bsl] @ ''"" time "'' @ [bsl] @ ''"" space'', deps = [''time'']\<rparr>),
     (''date-time-string'', \<lparr>content = ''"'' @ [bsl] @ ''"" date-time "'' @ [bsl] @ ''"" space'',
                             deps = [''date-time'']\<rparr>)]\<close>

text \<open>
  \<open>is_reserved_name\<close> keeps its set in a function-local static, filled on the first call and
  shared by every conversion of the process.  The static is an argument and a result here.
\<close>

definition ALL_RESERVED_NAMES :: "string set" where
  "ALL_RESERVED_NAMES = insert ''root'' (set (map fst PRIMITIVE_RULES) \<union> set (map fst STRING_FORMAT_RULES))"

definition is_reserved_name :: "string \<Rightarrow> string set \<Rightarrow> bool \<times> string set" where
  "is_reserved_name name RESERVED =
     (let RESERVED1 = (if RESERVED = {} then ALL_RESERVED_NAMES else RESERVED)
      in (name \<in> RESERVED1, RESERVED1))"

section \<open>The converter\<close>

text \<open>
  The members of \<open>SchemaConverter\<close> (the fetch function is an argument of \<open>resolve_refs\<close>, its
  only user).  \<open>_rules\<close> is a \<open>std::map\<close>: a search tree ordered by the byte-wise
  lexicographic order of the keys.  The unordered containers are a map and a set.
  \<open>RESERVED_NAMES\<close> is the static of \<open>is_reserved_name\<close>, carried with the state.
\<close>

record converter =
  dotall :: bool
  rules :: "(string, string) rbt"
  refs :: "string \<rightharpoonup> json"
  refs_being_resolved :: "string set"
  errors :: "string list"
  warnings :: "string list"
  RESERVED_NAMES :: "string set"

text \<open>The constructor stores the \<open>space\<close> rule.\<close>

definition SchemaConverter :: "string set \<Rightarrow> bool \<Rightarrow> converter" where
  "SchemaConverter RESERVED dotall_flag =
     \<lparr>dotall = dotall_flag, rules = RBT.insert ''space'' SPACE_RULE RBT.empty, refs = Map.empty,
      refs_being_resolved = {}, errors = [], warnings = [], RESERVED_NAMES = RESERVED\<rparr>"

definition add_error :: "string \<Rightarrow> converter \<Rightarrow> converter" where
  "add_error msg st = st\<lparr>errors := errors st @ [msg]\<rparr>"

definition add_warning :: "string \<Rightarrow> converter \<Rightarrow> converter" where
  "add_warning msg st = st\<lparr>warnings := warnings st @ [msg]\<rparr>"

text \<open>
  The \<open>while\<close> loop of \<open>_add_rule\<close>: the first suffix \<open>i\<close>, counting up from the given one,
  whose key is absent or holds the same rule.  \<open>i\<close> is an \<open>int\<close>; incrementing it past
  \<open>INT_MAX\<close> is undefined.
\<close>

function add_rule_loop :: "(string, string) rbt \<Rightarrow> string \<Rightarrow> string \<Rightarrow> int \<Rightarrow> failure + int" where
  "add_rule_loop rs esc_name rule i =
     (if RBT.lookup rs (esc_name @ int_to_string i) \<noteq> None
         \<and> RBT.lookup rs (esc_name @ int_to_string i) \<noteq> Some rule
      then (if i < INT_MAX then add_rule_loop rs esc_name rule (i + 1) else Inl Undefined_behaviour)
      else Inr i)"
  by pat_completeness auto
termination
  by (relation "measure (\<lambda>(rs, e, r, i). nat (INT_MAX - i))") auto

definition add_rule :: "string \<Rightarrow> string \<Rightarrow> converter \<Rightarrow> (string \<times> converter) result" where
  "add_rule name rule st =
     (let esc_name = sanitize name
      in if RBT.lookup (rules st) esc_name = None \<or> RBT.lookup (rules st) esc_name = Some rule
         then return (esc_name, st\<lparr>rules := RBT.insert esc_name rule (rules st)\<rparr>)
         else (case add_rule_loop (rules st) esc_name rule 0 of
                 Inl e \<Rightarrow> throw e
               | Inr i \<Rightarrow> (let key = esc_name @ int_to_string i
                           in return (key, st\<lparr>rules := RBT.insert key rule (rules st)\<rparr>))))"

text \<open>
  \<open>_add_primitive\<close> adds a built-in rule and, for each dependency that has no rule yet, the
  dependency's own rule.  The first argument bounds the depth of the nested calls.
\<close>

definition at_rule :: "(string \<times> BuiltinRule) list \<Rightarrow> string \<Rightarrow> failure + BuiltinRule" where
  "at_rule table key = (case map_of table key of Some r \<Rightarrow> Inr r | None \<Rightarrow> Inl Out_of_range)"

fun add_primitive_deps ::
  "(string \<Rightarrow> BuiltinRule \<Rightarrow> converter \<Rightarrow> (string \<times> converter) result)
    \<Rightarrow> string list \<Rightarrow> converter \<Rightarrow> converter result" where
  "add_primitive_deps add_primitive [] st = return st"
| "add_primitive_deps add_primitive (dep # ds) st =
     (case (case map_of PRIMITIVE_RULES dep of Some r \<Rightarrow> Some r | None \<Rightarrow> map_of STRING_FORMAT_RULES dep) of
        None \<Rightarrow> add_primitive_deps add_primitive ds (add_error (''Rule '' @ dep @ '' not known'') st)
      | Some dep_rule \<Rightarrow>
          if RBT.lookup (rules st) dep = None
          then bind (add_primitive dep dep_rule st) (\<lambda>(n, st1). add_primitive_deps add_primitive ds st1)
          else add_primitive_deps add_primitive ds st)"

primrec add_primitive :: "nat \<Rightarrow> string \<Rightarrow> BuiltinRule \<Rightarrow> converter \<Rightarrow> (string \<times> converter) result" where
  "add_primitive 0 name rule st = None"
| "add_primitive (Suc fuel) name rule st =
     bind (add_rule name (content rule) st)
       (\<lambda>(n, st1). bind (add_primitive_deps (add_primitive fuel) (deps rule) st1) (\<lambda>st2. return (n, st2)))"

section \<open>The pattern compiler\<close>

text \<open>\<open>std::string::front\<close> and \<open>back\<close>: there is no character to read in an empty string.
  (\<open>back\<close> is a keyword of the proof language, hence the prefix.)\<close>

definition str_front :: "string \<Rightarrow> char option" where
  "str_front s = (case s of [] \<Rightarrow> None | c # cs \<Rightarrow> Some c)"

definition str_back :: "string \<Rightarrow> char option" where
  "str_back s = (if s = [] then None else Some (last s))"

text \<open>
  \<open>std::stoi\<close>: leading white space, an optional sign, then decimal digits; what follows the
  digits is ignored.  No digit: \<open>invalid_argument\<close>.  A value outside \<open>int\<close>: \<open>out_of_range\<close>.
\<close>

definition is_space :: "char \<Rightarrow> bool" where
  "is_space c = (c = CHR '' '' \<or> c = CHR 0x09 \<or> c = nl \<or> c = CHR 0x0B \<or> c = CHR 0x0C \<or> c = cr)"

definition is_digit :: "char \<Rightarrow> bool" where
  "is_digit c = (CHR ''0'' \<le> c \<and> c \<le> CHR ''9'')"

definition digits_value :: "string \<Rightarrow> int" where
  "digits_value ds = foldl (\<lambda>acc c. 10 * acc + (int (of_char c) - 48)) 0 ds"

definition stoi :: "string \<Rightarrow> failure + int" where
  "stoi str =
     (let s1 = dropWhile is_space str;
          negative = (s1 \<noteq> [] \<and> hd s1 = CHR ''-'');
          s2 = (if s1 \<noteq> [] \<and> (hd s1 = CHR ''-'' \<or> hd s1 = CHR ''+'') then tl s1 else s1);
          ds = takeWhile is_digit s2;
          v = (if negative then - digits_value ds else digits_value ds)
      in if ds = [] then Inl Invalid_argument
         else if v < INT_MIN \<or> INT_MAX < v then Inl Out_of_range
         else Inr v)"

type_synonym literal_or_rule = "string \<times> bool"

definition to_rule :: "literal_or_rule \<Rightarrow> string" where
  "to_rule ls = (if snd ls then [CHR 0x22] @ fst ls @ [CHR 0x22] else fst ls)"

text \<open>
  \<open>join_seq\<close>: consecutive literals are merged, every item is rendered by \<open>to_rule\<close>, and the
  items are joined by single spaces.
\<close>

fun merge_literals :: "literal_or_rule list \<Rightarrow> string \<Rightarrow> literal_or_rule list" where
  "merge_literals [] literal = (if literal = [] then [] else [(literal, True)])"
| "merge_literals (item # rest) literal =
     (if snd item then merge_literals rest (literal @ fst item)
      else (if literal = [] then [] else [(literal, True)]) @ item # merge_literals rest [])"

definition join_seq :: "literal_or_rule list \<Rightarrow> literal_or_rule" where
  "join_seq seq = (join (map to_rule (merge_literals seq [])) '' '', False)"

definition get_dot :: "converter \<Rightarrow> (string \<times> converter) result" where
  "get_dot st =
     add_rule ''dot'' (if dotall st then ''['' @ [bsl] @ ''U00000000-'' @ [bsl] @ ''U0010FFFF]''
                       else ''[^'' @ [bsl] @ ''x0A'' @ [bsl] @ ''x0D]'') st"

text \<open>
  The three inner scanning loops of \<open>transform\<close>, each from position \<open>i\<close> of \<open>sub_pattern\<close>: up
  to the closing square bracket, up to the closing curly bracket, and over a run of literal
  characters.  Each step moves \<open>i\<close> forward.  \<open>substr(i, 2)\<close> is \<open>take 2 (drop i p)\<close>.
\<close>

function scan_square :: "string \<Rightarrow> nat \<Rightarrow> string \<Rightarrow> nat \<times> string" where
  "scan_square p i acc =
     (if i < length p \<and> p ! i \<noteq> CHR '']'' then
        (if p ! i = bsl then scan_square p (i + 2) (acc @ take 2 (drop i p))
         else scan_square p (i + 1) (acc @ [p ! i]))
      else (i, acc))"
  by pat_completeness auto
termination
  by (relation "measure (\<lambda>(p, i, acc). length p - i)") auto

function scan_curly :: "string \<Rightarrow> nat \<Rightarrow> string \<Rightarrow> nat \<times> string" where
  "scan_curly p i acc =
     (if i < length p \<and> p ! i \<noteq> CHR ''}'' then scan_curly p (i + 1) (acc @ [p ! i]) else (i, acc))"
  by pat_completeness auto
termination
  by (relation "measure (\<lambda>(p, i, acc). length p - i)") auto

function scan_literal :: "string \<Rightarrow> nat \<Rightarrow> string \<Rightarrow> nat \<times> string" where
  "scan_literal p i literal =
     (if i < length p then
        (if p ! i = bsl \<and> i < length p - 1 then
           (if p ! (i + 1) \<in> ESCAPED_IN_REGEXPS_BUT_NOT_IN_LITERALS
            then scan_literal p (i + 2) (literal @ [p ! (i + 1)])
            else scan_literal p (i + 2) (literal @ take 2 (drop i p)))
         else if p ! i = CHR 0x22 then scan_literal p (i + 1) (literal @ [bsl, CHR 0x22])
         else if p ! i \<notin> NON_LITERAL_SET
                 \<and> (i = length p - 1 \<or> literal = [] \<or> p ! (i + 1) = CHR ''.''
                     \<or> p ! (i + 1) \<notin> NON_LITERAL_SET)
           then scan_literal p (i + 1) (literal @ [p ! i])
         else (i, literal))
      else (i, literal))"
  by pat_completeness auto
termination
  by (relation "measure (\<lambda>(p, i, acc). length p - i)") auto

text \<open>
  The repetition counts between curly brackets \<open>{m}\<close>, \<open>{m,n}\<close>, \<open>{m,}\<close>, \<open>{,n}\<close>: the \<open>try\<close>
  block.  \<open>Inl Invalid_argument\<close> is the exception the source catches; \<open>Out_of_range\<close> is
  not caught.  The third component says whether the number of values was wrong.
\<close>

definition curly_counts :: "string list \<Rightarrow> failure + (int \<times> int \<times> bool)" where
  "curly_counts nums =
     (if length nums = 1 then
        (case stoi (nums ! 0) of Inl e \<Rightarrow> Inl e | Inr v \<Rightarrow> Inr (v, v, False))
      else if length nums \<noteq> 2 then Inr (0, INT_MAX, True)
      else
        (case (if nums ! 0 \<noteq> [] then stoi (nums ! 0) else Inr 0) of
           Inl e \<Rightarrow> Inl e
         | Inr min_times \<Rightarrow>
             (case (if nums ! 1 \<noteq> [] then stoi (nums ! 1) else Inr INT_MAX) of
                Inl e \<Rightarrow> Inl e
              | Inr max_times \<Rightarrow> Inr (min_times, max_times, False))))"

text \<open>
  The state of one \<open>_visit_pattern\<close> call that its lambdas share: the position \<open>i\<close>, the
  table \<open>sub_rule_ids\<close> and the converter.
\<close>

record pattern_state =
  pos :: nat
  sub_rule_ids :: "(string \<times> string) list"
  conv :: converter

text \<open>
  The curly-bracket branch after the counts are known: the last item of \<open>seq\<close> is replaced
  by its repetition; a non-literal item first gets a rule of its own, reused when the same
  text comes again.  \<open>seq.back()\<close> on an empty sequence is undefined.
\<close>

definition repeat_last ::
  "string \<Rightarrow> int \<Rightarrow> int \<Rightarrow> literal_or_rule list \<Rightarrow> pattern_state
     \<Rightarrow> (literal_or_rule list \<times> pattern_state) result" where
  "repeat_last name min_times max_times seq ps =
     (if seq = [] then throw Undefined_behaviour
      else
        (let sub = fst (last seq); sub_is_literal = snd (last seq)
         in bind
              (if sub_is_literal then return (sub, ps)
               else
                 (let ids = (if map_of (sub_rule_ids ps) sub = None then sub_rule_ids ps @ [(sub, [])]
                             else sub_rule_ids ps)
                  in if the (map_of ids sub) = [] then
                       bind (add_rule (name @ ''-'' @ to_string (length ids)) sub (conv ps))
                         (\<lambda>(sub_id, cv).
                            return (sub_id, ps\<lparr>sub_rule_ids := map (\<lambda>(k, v). if k = sub then (k, sub_id) else (k, v)) ids,
                                               conv := cv\<rparr>))
                     else return (the (map_of ids sub), ps\<lparr>sub_rule_ids := ids\<rparr>)))
              (\<lambda>(sub1, ps1).
                 bind (lift (build_repetition (if sub_is_literal then [CHR 0x22] @ sub1 @ [CHR 0x22] else sub1)
                               min_times max_times [] sub_is_literal))
                   (\<lambda>r. return (butlast seq @ [(r, False)], ps1)))))"

text \<open>
  \<open>transform\<close>: one equation per iteration of its \<open>while\<close> loop, with the local \<open>start\<close> and
  \<open>seq\<close> as arguments; a nested call starts at the current position with an empty
  sequence.  The first argument bounds the iterations and nested calls together.
\<close>

primrec transform ::
  "nat \<Rightarrow> string \<Rightarrow> string \<Rightarrow> nat \<Rightarrow> literal_or_rule list \<Rightarrow> pattern_state
     \<Rightarrow> (literal_or_rule \<times> pattern_state) result" where
  "transform 0 sub_pattern name start seq ps = None"
| "transform (Suc fuel) sub_pattern name start seq ps =
     (let i = pos ps in
      if \<not> i < length sub_pattern then return (join_seq seq, ps)
      else
        (let c = sub_pattern ! i in
         if c = CHR ''.'' then
           bind (get_dot (conv ps))
             (\<lambda>(dot, cv). transform fuel sub_pattern name start (seq @ [(dot, False)])
                             (ps\<lparr>pos := i + 1, conv := cv\<rparr>))
         else if c = CHR ''('' then
           (let ps1 = (if i + 1 < length sub_pattern \<and> sub_pattern ! (i + 1) = CHR ''?''
                       then ps\<lparr>pos := i + 1, conv := add_warning ''Unsupported pattern syntax'' (conv ps)\<rparr>
                       else ps\<lparr>pos := i + 1\<rparr>)
            in bind (transform fuel sub_pattern name (i + 1) [] ps1)
                 (\<lambda>(inner, ps2). transform fuel sub_pattern name start
                                    (seq @ [(''('' @ to_rule inner @ '')'', False)]) ps2))
         else if c = CHR '')'' then
           return (join_seq seq,
                   if start > 0 \<and> sub_pattern ! (start - 1) \<noteq> CHR ''(''
                   then ps\<lparr>pos := i + 1, conv := add_error ''Unbalanced parentheses'' (conv ps)\<rparr>
                   else ps\<lparr>pos := i + 1\<rparr>)
         else if c = CHR ''['' then
           (let (j, square_brackets) = scan_square sub_pattern (i + 1) ''['';
                cv = (if j \<ge> length sub_pattern then add_error ''Unbalanced square brackets'' (conv ps)
                      else conv ps)
            in transform fuel sub_pattern name start (seq @ [(square_brackets @ '']'', False)])
                 (ps\<lparr>pos := j + 1, conv := cv\<rparr>))
         else if c = CHR ''|'' then
           transform fuel sub_pattern name start (seq @ [(''|'', False)]) (ps\<lparr>pos := i + 1\<rparr>)
         else if c = CHR ''*'' \<or> c = CHR ''+'' \<or> c = CHR ''?'' then
           (if seq = [] then throw Undefined_behaviour
            else transform fuel sub_pattern name start
                   (butlast seq @ [(to_rule (last seq) @ [c], False)]) (ps\<lparr>pos := i + 1\<rparr>))
         else if c = CHR ''{'' then
           (let (j, curly_brackets) = scan_curly sub_pattern (i + 1) ''{'';
                cv = (if j \<ge> length sub_pattern then add_error ''Unbalanced curly brackets'' (conv ps)
                      else conv ps);
                ps1 = ps\<lparr>pos := j + 1, conv := cv\<rparr>
            in case curly_counts (split (tl curly_brackets) CHR '','') of
                 Inl Invalid_argument \<Rightarrow>
                   return (([], False), ps1\<lparr>conv := add_error ''Invalid number in curly brackets'' cv\<rparr>)
               | Inl e \<Rightarrow> throw e
               | Inr (min_times, max_times, wrong_number) \<Rightarrow>
                   (let ps2 = (if wrong_number
                               then ps1\<lparr>conv := add_error ''Wrong number of values in curly brackets'' cv\<rparr>
                               else ps1)
                    in bind (repeat_last name min_times max_times seq ps2)
                         (\<lambda>(seq1, ps3). transform fuel sub_pattern name start seq1 ps3)))
         else
           (let (j, literal) = scan_literal sub_pattern i []
            in transform fuel sub_pattern name start
                 (if literal \<noteq> [] then seq @ [(literal, True)] else seq) (ps\<lparr>pos := j\<rparr>))))"

text \<open>
  \<open>_visit_pattern\<close>.  The anchoring test reads the first and the last character of the
  pattern; on the empty pattern there is none to read and the test does not succeed.
\<close>

definition visit_pattern :: "nat \<Rightarrow> string \<Rightarrow> string \<Rightarrow> converter \<Rightarrow> (string \<times> converter) result" where
  \<open>visit_pattern fuel pattern name st =
     (if \<not> (str_front pattern = Some CHR ''^'' \<and> str_back pattern = Some CHR ''$'') then
        return ([], add_error (''Pattern must start with '' @ [CHR 0x27] @ ''^'' @ [CHR 0x27]
                               @ '' and end with '' @ [CHR 0x27] @ ''$'' @ [CHR 0x27]) st)
      else
        (let sub_pattern = butlast (tl pattern)
         in bind (transform fuel sub_pattern name 0 [] \<lparr>pos = 0, sub_rule_ids = [], conv = st\<rparr>)
              (\<lambda>(r, ps). add_rule name (''"'' @ [bsl] @ ''"" '' @ to_rule r @ '' "'' @ [bsl] @ ''"" space'')
                            (conv ps))))\<close>

section \<open>Resolving references\<close>

text \<open>
  \<open>visit_refs\<close> rewrites \<open>$ref\<close> members inside the document it walks, and copies the whole
  document (\<open>target = schema\<close>) as rewritten so far.  The model therefore carries the
  document and addresses the node \<open>n\<close> by its path from the root.
\<close>

datatype selector = Key string | Index nat

fun get_node :: "json \<Rightarrow> selector list \<Rightarrow> json" where
  "get_node j [] = j"
| "get_node (JObject kvs) (Key k # p) = (case map_of kvs k of Some v \<Rightarrow> get_node v p | None \<Rightarrow> JNull)"
| "get_node (JArray xs) (Index i # p) = (if i < length xs then get_node (xs ! i) p else JNull)"
| "get_node j (sel # p) = JNull"

fun set_node :: "json \<Rightarrow> selector list \<Rightarrow> json \<Rightarrow> json" where
  "set_node j [] v = v"
| "set_node (JObject kvs) (Key k # p) v =
     JObject (map (\<lambda>(k', x). if k' = k then (k', set_node x p v) else (k', x)) kvs)"
| "set_node (JArray xs) (Index i # p) v = JArray (xs[i := set_node (xs ! i) p v])"
| "set_node j (sel # p) v = j"

text \<open>\<open>n[key] = v\<close> on an object that has the key.\<close>

definition set_member :: "json \<Rightarrow> string \<Rightarrow> json \<Rightarrow> json" where
  "set_member n key v = (case n of JObject kvs \<Rightarrow> JObject (map (\<lambda>(k, x). if k = key then (k, v) else (k, x)) kvs)
                                 | _ \<Rightarrow> n)"

text \<open>
  The walk along the tokens of a JSON pointer: the sub-schema it reaches, or the token
  that is missing together with the value it is missing from.
\<close>

fun walk_pointer :: "string list \<Rightarrow> json \<Rightarrow> (string \<times> json) + json" where
  "walk_pointer [] target = Inr target"
| "walk_pointer (sel # tokens) target =
     (if is_null target \<or> \<not> contains target sel then Inl (sel, target)
      else walk_pointer tokens (json_at target sel))"

text \<open>\<open>ref.substr(0, ref.find('#'))\<close> and \<open>ref.substr(ref.find('#') + 1)\<close>.\<close>

definition before_hash :: "string \<Rightarrow> string" where
  "before_hash ref = takeWhile (\<lambda>c. c \<noteq> CHR ''#'') ref"

definition after_hash :: "string \<Rightarrow> string" where
  "after_hash ref = (if CHR ''#'' \<in> set ref then tl (dropWhile (\<lambda>c. c \<noteq> CHR ''#'') ref) else ref)"

text \<open>The end of \<open>visit_refs\<close> for a node with \<open>$ref\<close>: walk the pointer, store the target.\<close>

definition store_target :: "string \<Rightarrow> json \<Rightarrow> json \<Rightarrow> converter \<Rightarrow> (json \<times> converter) result" where
  "store_target ref target schema st =
     (case walk_pointer (tl (split (after_hash ref) CHR ''/'')) target of
        Inl (sel, t) \<Rightarrow>
          return (schema, add_error (''Error resolving ref '' @ ref @ '': '' @ sel @ '' not in '' @ dump t) st)
      | Inr t \<Rightarrow> return (schema, st\<lparr>refs := (refs st)(ref \<mapsto> t)\<rparr>))"

text \<open>
  \<open>visit_refs\<close> at the node \<open>path\<close> of \<open>schema\<close>.  \<open>resolve_refs(schema, url)\<close> is \<open>visit_refs\<close> at
  the root; the nested call on a fetched document is the argument \<open>resolve\<close>.
\<close>

definition visit_refs_node ::
  "(string \<Rightarrow> selector list \<Rightarrow> json \<times> converter \<Rightarrow> (json \<times> converter) result)
     \<Rightarrow> (string \<Rightarrow> json) \<Rightarrow> string \<Rightarrow> selector list \<Rightarrow> json \<times> converter \<Rightarrow> (json \<times> converter) result" where
  "visit_refs_node visit_refs fetch_json url path s =
     (let schema = fst s; st = snd s; n = get_node schema path in
      if is_array n then
        bind (for_each (\<lambda>i s1. bind (visit_refs url (path @ [Index i]) s1) (\<lambda>s2. return ((), s2)))
                [0..<length (elements n)] s)
          (\<lambda>(us, s3). return s3)
      else if is_object n then
        (if contains n ''$ref'' then
           bind (lift (get_string (json_at n ''$ref'')))
             (\<lambda>ref.
                if refs st ref \<noteq> None then return s
                else if take 8 ref = ''https://'' then
                  (let base_url = before_hash ref
                   in bind (case refs st base_url of
                              Some t \<Rightarrow> return (t, st)
                            | None \<Rightarrow>
                                bind (visit_refs base_url [] (fetch_json ref, st))
                                  (\<lambda>(referenced, st1).
                                     return (JNull, st1\<lparr>refs := (refs st1)(base_url \<mapsto> referenced)\<rparr>)))
                        (\<lambda>(target, st2).
                           if CHR ''#'' \<notin> set ref \<or> after_hash ref = [] then return (schema, st2)
                           else store_target ref target schema st2))
                else if take 2 ref = ''#/'' then
                  store_target (url @ ref) schema
                    (set_node schema path (set_member n ''$ref'' (JString (url @ ref)))) st
                else return (schema, add_error (''Unsupported ref: '' @ ref) st))
         else
           bind (for_each (\<lambda>k s1. bind (visit_refs url (path @ [Key k]) s1) (\<lambda>s2. return ((), s2)))
                   (map fst (items n)) s)
             (\<lambda>(us, s3). return s3))
      else return s)"

primrec visit_refs ::
  "nat \<Rightarrow> (string \<Rightarrow> json) \<Rightarrow> string \<Rightarrow> selector list \<Rightarrow> json \<times> converter \<Rightarrow> (json \<times> converter) result" where
  "visit_refs 0 fetch_json url path s = None"
| "visit_refs (Suc fuel) fetch_json url path s =
     visit_refs_node (visit_refs fuel fetch_json) fetch_json url path s"

definition resolve_refs ::
  "nat \<Rightarrow> (string \<Rightarrow> json) \<Rightarrow> json \<Rightarrow> string \<Rightarrow> converter \<Rightarrow> (json \<times> converter) result" where
  "resolve_refs fuel fetch_json schema url st = visit_refs fuel fetch_json url [] (schema, st)"

section \<open>Visiting a schema\<close>

text \<open>
  \<open>visit\<close> and the members that call it back (\<open>_resolve_ref\<close>, \<open>_generate_union_rule\<close>,
  \<open>_build_object_rule\<close>) are written over the function they call for a nested schema, the
  argument \<open>visit\<close>; \<open>visit\<close> itself ties the knot below, one level of nesting per unit of
  its bound.
\<close>

type_synonym visitor = "json \<Rightarrow> string \<Rightarrow> converter \<Rightarrow> (string \<times> converter) result"

text \<open>\<open>name + (name.empty() ? "" : "-") + suffix\<close>.\<close>

definition child_name :: "string \<Rightarrow> string \<Rightarrow> string" where
  "child_name name suffix = name @ (if name = [] then [] else ''-'') @ suffix"

text \<open>\<open>ref.substr(ref.find_last_of('/') + 1)\<close>: the whole string when it has no slash.\<close>

definition after_last_slash :: "string \<Rightarrow> string" where
  "after_last_slash ref = rev (takeWhile (\<lambda>c. c \<noteq> CHR ''/'') (rev ref))"

text \<open>
  \<open>_resolve_ref\<close>.  \<open>_refs[ref]\<close> inserts a null schema for a reference that was never
  resolved.
\<close>

definition resolve_ref :: "visitor \<Rightarrow> string \<Rightarrow> converter \<Rightarrow> (string \<times> converter) result" where
  "resolve_ref visit ref st =
     (let ref_name = after_last_slash ref
      in if RBT.lookup (rules st) ref_name = None \<and> ref \<notin> refs_being_resolved st then
           (let st1 = st\<lparr>refs_being_resolved := insert ref (refs_being_resolved st)\<rparr>;
                resolved = (case refs st1 ref of Some j \<Rightarrow> j | None \<Rightarrow> JNull);
                st2 = (case refs st1 ref of Some j \<Rightarrow> st1 | None \<Rightarrow> st1\<lparr>refs := (refs st1)(ref \<mapsto> JNull)\<rparr>)
            in bind (visit resolved ref_name st2)
                 (\<lambda>(ref_name1, st3).
                    return (ref_name1, st3\<lparr>refs_being_resolved := refs_being_resolved st3 - {ref}\<rparr>)))
         else return (ref_name, st))"

definition generate_union_rule :: "visitor \<Rightarrow> string \<Rightarrow> json list \<Rightarrow> converter \<Rightarrow> (string \<times> converter) result" where
  "generate_union_rule visit name alt_schemas st =
     bind (for_each (\<lambda>(i, alt) s. visit alt (name @ (if name = [] then ''alternative-'' else ''-'') @ to_string i) s)
             (enumerate 0 alt_schemas) st)
       (\<lambda>(alt_rules, st1). return (join alt_rules '' | '', st1))"

definition generate_constant_rule :: "json \<Rightarrow> string" where
  "generate_constant_rule v = format_literal (dump v)"

text \<open>
  The lambda \<open>get_recursive_refs\<close> of \<open>_build_object_rule\<close>; \<open>prop_kv_rule_names[k]\<close> is the
  empty string for a key that was never stored.
\<close>

fun get_recursive_refs ::
  "string \<Rightarrow> (string \<Rightarrow> string) \<Rightarrow> string list \<Rightarrow> bool \<Rightarrow> converter \<Rightarrow> (string \<times> converter) result" where
  \<open>get_recursive_refs name prop_kv_rule_names [] first_is_optional st = return ([], st)\<close>
| \<open>get_recursive_refs name prop_kv_rule_names (k # ks) first_is_optional st =
     (let kv_rule_name = prop_kv_rule_names k
      in bind (if k = ''*'' then
                 add_rule (child_name name ''additional-kvs'')
                   (kv_rule_name @ '' ( "," space '' @ kv_rule_name @ '' )*'') st
               else if first_is_optional then return (''( "," space '' @ kv_rule_name @ '' )?'', st)
               else return (kv_rule_name, st))
           (\<lambda>(res, st1).
              if ks \<noteq> [] then
                bind (get_recursive_refs name prop_kv_rule_names ks True st1)
                  (\<lambda>(rest, st2).
                     bind (add_rule (child_name name (k @ ''-rest'')) rest st2)
                       (\<lambda>(rest_name, st3). return (res @ '' '' @ rest_name, st3)))
              else return (res, st1)))\<close>

text \<open>
  \<open>_build_object_rule\<close>.  The first loop yields one key-value rule per property; the map
  \<open>prop_kv_rule_names\<close> keeps the last rule stored for a name, and the lists of required
  and optional names keep the order of the properties.
\<close>

definition build_object_rule ::
  "nat \<Rightarrow> visitor \<Rightarrow> (string \<times> json) list \<Rightarrow> string set \<Rightarrow> string \<Rightarrow> json \<Rightarrow> converter
     \<Rightarrow> (string \<times> converter) result" where
  \<open>build_object_rule fuel visit properties required name additional_properties st =
     bind (for_each
             (\<lambda>(prop_name, prop_schema) s.
                bind (visit prop_schema (child_name name prop_name) s)
                  (\<lambda>(prop_rule_name, s1).
                     bind (add_rule (child_name name prop_name @ ''-kv'')
                             (format_literal (dump (JString prop_name)) @ '' space ":" space '' @ prop_rule_name) s1)
                       (\<lambda>(kv, s2). return ((prop_name, kv), s2))))
             properties st)
       (\<lambda>(kvs, st1).
          let prop_kv_rule_names = foldl (\<lambda>m (k, v). m(k := v)) (\<lambda>k. []) kvs;
              required_props = filter (\<lambda>k. k \<in> required) (map fst properties);
              optional_props = filter (\<lambda>k. k \<notin> required) (map fst properties)
          in bind (if is_object additional_properties \<or> additional_properties = JBool True then
                     (let sub_name = child_name name ''additional''
                      in bind (visit (if is_object additional_properties then additional_properties else JObject [])
                                 (sub_name @ ''-value'') st1)
                           (\<lambda>(value_rule, st2).
                              bind (lift (at_rule PRIMITIVE_RULES ''string''))
                                (\<lambda>string_rule.
                                   bind (add_primitive fuel ''string'' string_rule st2)
                                     (\<lambda>(string_name, st3).
                                        bind (add_rule (sub_name @ ''-kv'')
                                                (string_name @ '' ":" space '' @ value_rule) st3)
                                          (\<lambda>(kv_rule, st4).
                                             return ((prop_kv_rule_names(''*'' := kv_rule),
                                                      optional_props @ [''*'']), st4))))))
                   else return ((prop_kv_rule_names, optional_props), st1))
               (\<lambda>((kv_names, optional_props1), st5).
                  let rule0 = ''"{" space '' @ join (map kv_names required_props) '' "," space ''
                  in if optional_props1 \<noteq> [] then
                       bind (for_each (\<lambda>i s. get_recursive_refs name kv_names (drop i optional_props1) False s)
                               [0..<length optional_props1] st5)
                         (\<lambda>(alts, st6).
                            return (rule0 @ '' ('' @ (if required_props \<noteq> [] then '' "," space ( '' else [])
                                    @ join alts '' | ''
                                    @ (if required_props \<noteq> [] then '' )'' else []) @ '' )?''
                                    @ '' "}" space'', st6))
                     else return (rule0 @ '' "}" space'', st5)))\<close>

text \<open>
  The lambda \<open>add_component\<close> of the \<open>allOf\<close> branch, on the lists \<open>properties\<close> and
  \<open>required\<close> it captures.  It follows \<open>$ref\<close> through \<open>_refs\<close>; the first argument bounds the
  depth of these calls.
\<close>

primrec add_component ::
  "nat \<Rightarrow> json \<Rightarrow> bool \<Rightarrow> (string \<times> json) list \<times> string set \<times> converter
     \<Rightarrow> ((string \<times> json) list \<times> string set \<times> converter) result" where
  "add_component 0 comp_schema is_required acc = None"
| "add_component (Suc fuel) comp_schema is_required acc =
     (let properties = fst acc; required = fst (snd acc); st = snd (snd acc)
      in if contains comp_schema ''$ref'' then
           bind (lift (get_string (json_at comp_schema ''$ref'')))
             (\<lambda>ref. add_component fuel (case refs st ref of Some j \<Rightarrow> j | None \<Rightarrow> JNull) is_required
                       (properties, required,
                        (case refs st ref of Some j \<Rightarrow> st | None \<Rightarrow> st\<lparr>refs := (refs st)(ref \<mapsto> JNull)\<rparr>)))
         else if contains comp_schema ''properties'' then
           return (properties @ items (json_at comp_schema ''properties''),
                   (if is_required then required \<union> set (map fst (items (json_at comp_schema ''properties'')))
                    else required),
                   st)
         else return acc)"

text \<open>A loop that only threads its state.\<close>

fun fold_result :: "('a \<Rightarrow> 's \<Rightarrow> 's result) \<Rightarrow> 'a list \<Rightarrow> 's \<Rightarrow> 's result" where
  "fold_result f [] s = return s"
| "fold_result f (x # xs) s = bind (f x s) (fold_result f xs)"

text \<open>
  The body of \<open>visit\<close>, branch by branch in the order of the source.  \<open>fuel\<close> bounds the
  calls of \<open>_add_primitive\<close>, \<open>transform\<close> and \<open>add_component\<close> made at this level.
\<close>

definition visit_body :: "nat \<Rightarrow> visitor \<Rightarrow> json \<Rightarrow> string \<Rightarrow> converter \<Rightarrow> (string \<times> converter) result" where
  \<open>visit_body fuel visit schema name st0 =
     (let schema_type = (if contains schema ''type'' then json_at schema ''type'' else JNull) in
      bind (if contains schema ''format'' then lift (get_string (json_at schema ''format'')) else return [])
        (\<lambda>schema_format.
           let reserved = is_reserved_name name (RESERVED_NAMES st0);
               st = st0\<lparr>RESERVED_NAMES := snd reserved\<rparr>;
               rule_name = (if fst reserved then name @ ''-'' else if name = [] then ''root'' else name);
               type_null_or = (\<lambda>t. is_null schema_type \<or> schema_type = JString t)
           in
           if contains schema ''$ref'' then
             bind (lift (get_string (json_at schema ''$ref'')))
               (\<lambda>ref. bind (resolve_ref visit ref st) (\<lambda>(r, st1). add_rule rule_name r st1))
           else if contains schema ''oneOf'' \<or> contains schema ''anyOf'' then
             bind (lift (get_vector (if contains schema ''oneOf'' then json_at schema ''oneOf''
                                     else json_at schema ''anyOf'')))
               (\<lambda>alt_schemas. bind (generate_union_rule visit name alt_schemas st)
                                 (\<lambda>(r, st1). add_rule rule_name r st1))
           else if is_array schema_type then
             bind (generate_union_rule visit name (map (\<lambda>t. JObject [(''type'', t)]) (elements schema_type)) st)
               (\<lambda>(r, st1). add_rule rule_name r st1)
           else if contains schema ''const'' then
             add_rule rule_name (generate_constant_rule (json_at schema ''const'')) st
           else if contains schema ''enum'' then
             add_rule rule_name (join (map generate_constant_rule (elements (json_at schema ''enum''))) '' | '') st
           else if type_null_or ''object''
                   \<and> (contains schema ''properties''
                       \<or> (contains schema ''additionalProperties''
                           \<and> json_at schema ''additionalProperties'' \<noteq> JBool True)) then
             (let required = (if contains schema ''required'' \<and> is_array (json_at schema ''required'')
                              then set (concat (map (\<lambda>item. case item of JString s \<Rightarrow> [s] | _ \<Rightarrow> [])
                                                  (elements (json_at schema ''required''))))
                              else {});
                  properties = (if contains schema ''properties'' then items (json_at schema ''properties'')
                                else [])
              in bind (build_object_rule fuel visit properties required name
                         (if contains schema ''additionalProperties'' then json_at schema ''additionalProperties''
                          else JNull) st)
                   (\<lambda>(r, st1). add_rule rule_name r st1))
           else if type_null_or ''object'' \<and> contains schema ''allOf'' then
             bind (fold_result (\<lambda>(comp, is_required) acc. add_component fuel comp is_required acc)
                     (concat (map (\<lambda>t. if contains t ''anyOf''
                                        then map (\<lambda>tt. (tt, False)) (elements (json_at t ''anyOf''))
                                        else [(t, True)])
                                (elements (json_at schema ''allOf''))))
                     ([], {}, st))
               (\<lambda>(properties, required, st1).
                  bind (build_object_rule fuel visit properties required name JNull st1)
                    (\<lambda>(r, st2). add_rule rule_name r st2))
           else if type_null_or ''array'' \<and> (contains schema ''items'' \<or> contains schema ''prefixItems'') then
             (let items_json = (if contains schema ''items'' then json_at schema ''items''
                                else json_at schema ''prefixItems'')
              in if is_array items_json then
                   bind (for_each (\<lambda>(i, item) s. visit item (child_name name (''tuple-'' @ to_string i)) s)
                           (enumerate 0 (elements items_json)) st)
                     (\<lambda>(item_rules, st1).
                        add_rule rule_name (''"[" space '' @ join item_rules '' "," space '' @ '' "]" space'') st1)
                 else
                   bind (visit items_json (child_name name ''item'') st)
                     (\<lambda>(item_rule_name, st1).
                        bind (if contains schema ''minItems'' then lift (get_int (json_at schema ''minItems''))
                              else return 0)
                          (\<lambda>min_items.
                             let max_items_json = (if contains schema ''maxItems'' then json_at schema ''maxItems''
                                                   else JNull)
                             in bind (if is_number_integer max_items_json then lift (get_int max_items_json)
                                      else return INT_MAX)
                                  (\<lambda>max_items.
                                     bind (lift (build_repetition item_rule_name min_items max_items
                                                   ''"," space'' False))
                                       (\<lambda>rep. add_rule rule_name (''"[" space '' @ rep @ '' "]" space'') st1)))))
           else if type_null_or ''string'' \<and> contains schema ''pattern'' then
             bind (lift (get_string (json_at schema ''pattern'')))
               (\<lambda>pattern. visit_pattern fuel pattern rule_name st)
           else if type_null_or ''string''
                   \<and> schema_format \<in> {''uuid'', ''uuid1'', ''uuid2'', ''uuid3'', ''uuid4'', ''uuid5''} then
             bind (lift (at_rule PRIMITIVE_RULES ''uuid''))
               (\<lambda>r. add_primitive fuel (if rule_name = ''root'' then ''root'' else schema_format) r st)
           else if type_null_or ''string'' \<and> map_of STRING_FORMAT_RULES (schema_format @ ''-string'') \<noteq> None then
             (let prim_name = schema_format @ ''-string''
              in bind (lift (at_rule STRING_FORMAT_RULES prim_name))
                   (\<lambda>r. bind (add_primitive fuel prim_name r st) (\<lambda>(n, st1). add_rule rule_name n st1)))
           else if schema_type = JString ''string''
                   \<and> (contains schema ''minLength'' \<or> contains schema ''maxLength'') then
             bind (lift (at_rule PRIMITIVE_RULES ''char''))
               (\<lambda>r. bind (add_primitive fuel ''char'' r st)
                  (\<lambda>(char_rule, st1).
                     bind (if contains schema ''minLength'' then lift (get_int (json_at schema ''minLength''))
                           else return 0)
                       (\<lambda>min_len.
                          bind (if contains schema ''maxLength'' then lift (get_int (json_at schema ''maxLength''))
                                else return INT_MAX)
                            (\<lambda>max_len.
                               bind (lift (build_repetition char_rule min_len max_len [] False))
                                 (\<lambda>rep. add_rule rule_name
                                           (''"'' @ [bsl] @ ''"" '' @ rep @ '' "'' @ [bsl] @ ''"" space'') st1)))))
           else if empty_json schema \<or> schema_type = JString ''object'' then
             bind (lift (at_rule PRIMITIVE_RULES ''object''))
               (\<lambda>r. bind (add_primitive fuel ''object'' r st) (\<lambda>(n, st1). add_rule rule_name n st1))
           else
             (case (case schema_type of JString t \<Rightarrow> map_of PRIMITIVE_RULES t | _ \<Rightarrow> None) of
                None \<Rightarrow> return ([], add_error (''Unrecognized schema: '' @ dump schema) st)
              | Some r \<Rightarrow>
                  bind (lift (get_string schema_type))
                    (\<lambda>t. add_primitive fuel (if rule_name = ''root'' then ''root'' else t) r st))))\<close>

primrec visit :: "nat \<Rightarrow> json \<Rightarrow> string \<Rightarrow> converter \<Rightarrow> (string \<times> converter) result" where
  "visit 0 schema name st = None"
| "visit (Suc fuel) schema name st = visit_body fuel (visit fuel) schema name st"

section \<open>Errors and output\<close>

text \<open>
  \<open>check_errors\<close> throws when an error was recorded.  (The warnings go to \<open>stderr\<close>, which is
  not part of the result.)
\<close>

definition check_errors :: "converter \<Rightarrow> unit result" where
  "check_errors st =
     (if errors st \<noteq> [] then
        throw (Runtime_error (''JSON schema conversion failed:'' @ [nl] @ join (errors st) [nl]))
      else return ())"

text \<open>\<open>format_grammar\<close> iterates over the \<open>std::map\<close>, that is, in the order of its keys.\<close>

definition format_grammar :: "converter \<Rightarrow> string" where
  "format_grammar st = concat (map (\<lambda>(k, v). k @ '' ::= '' @ v @ [nl]) (RBT.entries (rules st)))"

text \<open>
  \<open>json_schema_to_grammar\<close>.  The arguments besides the schema are the bound on nesting and
  the value of the static \<open>RESERVED_NAMES\<close> when the call starts.
\<close>

definition json_schema_to_grammar :: "nat \<Rightarrow> string set \<Rightarrow> json \<Rightarrow> string result" where
  "json_schema_to_grammar fuel RESERVED schema =
     bind (resolve_refs fuel (\<lambda>url. JObject []) schema ''input'' (SchemaConverter RESERVED False))
       (\<lambda>(copy, st1).
          bind (visit fuel copy [] st1)
            (\<lambda>(root_name, st2). bind (check_errors st2) (\<lambda>u. return (format_grammar st2))))"

text \<open>
  The two calls of \<open>json_schema_to_grammar\<close> that do the conversion, \<open>resolve_refs\<close> and then
  \<open>visit\<close> on the rewritten copy: the root rule name and the state that \<open>check_errors\<close> and
  \<open>format_grammar\<close> then read.
\<close>

definition conversion :: "nat \<Rightarrow> string set \<Rightarrow> json \<Rightarrow> (string \<times> converter) result" where
  "conversion fuel RESERVED schema =
     bind (resolve_refs fuel (\<lambda>url. JObject []) schema ''input'' (SchemaConverter RESERVED False))
       (\<lambda>(copy, st1). visit fuel copy [] st1)"

text \<open>
  A schema whose definition \<open>string\<close> refers to itself; the name is also the name of a
  built-in rule.
\<close>

definition cyclic_reserved_schema :: json where
  "cyclic_reserved_schema =
     JObject [(''$defs'', JObject [(''string'', JObject [(''properties'', JObject [(''next'', JObject [(''$ref'', JString ''#/$defs/string'')])])])]),
              (''properties'', JObject [(''a'', JObject [(''$ref'', JString ''#/$defs/string'')])])]"

text \<open>
  A schema whose definition \<open>A\<close> is a reference to itself, used under \<open>allOf\<close>.
\<close>

definition allOf_cycle_schema :: json where
  "allOf_cycle_schema =
     JObject [(''$defs'', JObject [(''A'', JObject [(''$ref'', JString ''#/$defs/A'')])]),
              (''allOf'', JArray [JObject [(''$ref'', JString ''#/$defs/A'')]])]"

text \<open>
  A function applied to the value a call returns, and the static \<open>RESERVED_NAMES\<close> set in
  the state that \<open>visit_refs\<close> threads.
\<close>

definition map_result :: "('a \<Rightarrow> 'b) \<Rightarrow> 'a result \<Rightarrow> 'b result" where
  "map_result g m = bind m (\<lambda>x. return (g x))"

definition set_static :: "string set \<Rightarrow> json \<times> converter \<Rightarrow> json \<times> converter" where
  "set_static R s = (fst s, (snd s)\<lparr>RESERVED_NAMES := R\<rparr>)"

text \<open>
  A slot of the rule table is free for a rule when its key is absent or already holds that
  rule; \<open>_add_rule\<close> only ever writes into a free slot.
\<close>

definition slot_free :: "(string, string) rbt \<Rightarrow> string \<Rightarrow> string \<Rightarrow> int \<Rightarrow> bool" where
  "slot_free rs esc_name rule i =
     (RBT.lookup rs (esc_name @ int_to_string i) = None \<or> RBT.lookup rs (esc_name @ int_to_string i) = Some rule)"

text \<open>The message of the anchoring test of \<open>_visit_pattern\<close>.\<close>

definition anchor_error :: string where
  "anchor_error = ''Pattern must start with '' @ [CHR 0x27] @ ''^'' @ [CHR 0x27]
                  @ '' and end with '' @ [CHR 0x27] @ ''$'' @ [CHR 0x27]"

text \<open>
  The schemas for which \<open>visit\<close> reaches the branch of \<open>_visit_pattern\<close>: the tests of that
  branch and the negated tests of the branches before it, and a \<open>format\<close>, when present, that
  is a string (\<open>visit\<close> reads it before it tests anything).
\<close>

definition reaches_pattern_branch :: "json \<Rightarrow> bool" where
  "reaches_pattern_branch schema =
     (let schema_type = (if contains schema ''type'' then json_at schema ''type'' else JNull);
          type_null_or = (\<lambda>t. is_null schema_type \<or> schema_type = JString t)
      in (contains schema ''format'' \<longrightarrow> is_string (json_at schema ''format''))
         \<and> \<not> contains schema ''$ref''
         \<and> \<not> (contains schema ''oneOf'' \<or> contains schema ''anyOf'')
         \<and> \<not> is_array schema_type
         \<and> \<not> contains schema ''const''
         \<and> \<not> contains schema ''enum''
         \<and> \<not> (type_null_or ''object''
                \<and> (contains schema ''properties''
                    \<or> (contains schema ''additionalProperties''
                        \<and> json_at schema ''additionalProperties'' \<noteq> JBool True)))
         \<and> \<not> (type_null_or ''object'' \<and> contains schema ''allOf'')
         \<and> \<not> (type_null_or ''array'' \<and> (contains schema ''items'' \<or> contains schema ''prefixItems''))
         \<and> type_null_or ''string'' \<and> contains schema ''pattern'')"

text \<open>
  A call that does not return within a bound may return within a larger one; a call that
  returns or throws within a bound does the same within every larger one.  \<open>le_result\<close>
  relates the two results.
\<close>

definition le_result :: "'a result \<Rightarrow> 'a result \<Rightarrow> bool" where
  "le_result m m' = (m = None \<or> m = m')"

section \<open>Basic facts\<close>

declare to_string.simps [simp del]

declare add_rule_loop.simps [simp del]

lemma bind_return [simp]: "bind (return x) f = f x"
  by (simp add: bind_def return_def)

lemma bind_throw [simp]: "bind (throw e) f = throw e"
  by (simp add: bind_def throw_def)

lemma bind_None [simp]: "bind None f = None"
  by (simp add: bind_def)

lemma bind_Some_Inr [simp]: "bind (Some (Inr x)) f = f x"
  by (simp add: bind_def)

lemma bind_Some_Inl [simp]: "bind (Some (Inl e)) f = Some (Inl e)"
  by (simp add: bind_def)

lemma bind_assoc: "bind (bind m f) g = bind m (\<lambda>x. bind (f x) g)"
  by (simp add: bind_def split: option.splits sum.splits)

lemma bind_lift_Inr [simp]: "bind (lift (Inr x)) f = f x"
  by (simp add: bind_def lift_def)

lemma bind_lift_Inl [simp]: "bind (lift (Inl e)) f = throw e"
  by (simp add: bind_def lift_def throw_def)

lemma contains_simps [simp]:
  "contains (JObject kvs) k = (map_of kvs k \<noteq> None)"
  "contains JNull k = False"
  "contains (JBool b) k = False"
  "contains (JInt i) k = False"
  "contains (JString s) k = False"
  "contains (JArray xs) k = False"
  by (simp_all add: contains_def)

lemma json_at_JObject [simp]:
  "json_at (JObject kvs) k = (case map_of kvs k of Some v \<Rightarrow> v | None \<Rightarrow> JNull)"
  by (simp add: json_at_def)

section \<open>The bound on nested calls\<close>

text \<open>
  Every function of the model that takes a bound is monotone in it: raising the bound
  changes no result that the smaller bound already gave.
\<close>

lemma le_result_refl: "le_result m m"
  by (simp add: le_result_def)

lemma le_result_None: "le_result None m"
  by (simp add: le_result_def)

lemma le_result_trans: "le_result a b \<Longrightarrow> le_result b c \<Longrightarrow> le_result a c"
  by (auto simp: le_result_def)

lemma le_result_Some: "le_result m m' \<Longrightarrow> m = Some r \<Longrightarrow> m' = Some r"
  by (auto simp: le_result_def)

lemma le_result_bind:
  "le_result m m' \<Longrightarrow> (\<And>x. le_result (f x) (f' x)) \<Longrightarrow> le_result (bind m f) (bind m' f')"
  by (auto simp: le_result_def bind_def split: option.splits sum.splits)

lemma le_result_if:
  "(c \<Longrightarrow> le_result a a') \<Longrightarrow> (\<not> c \<Longrightarrow> le_result b b')
   \<Longrightarrow> le_result (if c then a else b) (if c then a' else b')"
  by simp

lemma le_result_prod:
  "(\<And>a b. le_result (f a b) (f' a b)) \<Longrightarrow> le_result (case_prod f p) (case_prod f' p)"
  by (cases p) simp

lemma le_result_prod_app:
  "(\<And>a b. le_result (f a b s) (f' a b s)) \<Longrightarrow> le_result (case_prod f p s) (case_prod f' p s)"
  by (cases p) simp

lemma le_result_option:
  "le_result a a' \<Longrightarrow> (\<And>x. le_result (f x) (f' x)) \<Longrightarrow> le_result (case_option a f p) (case_option a' f' p)"
  by (cases p) simp_all

lemma le_result_sum:
  "(\<And>x. le_result (f x) (f' x)) \<Longrightarrow> (\<And>x. le_result (g x) (g' x))
   \<Longrightarrow> le_result (case_sum f g p) (case_sum f' g' p)"
  by (cases p) simp_all

lemma for_each_mono:
  assumes "\<And>x s. le_result (f x s) (f' x s)"
  shows "le_result (for_each f xs s) (for_each f' xs s)"
  by (induction xs arbitrary: s) (simp_all add: le_result_refl le_result_bind le_result_prod assms)

lemma fold_result_mono:
  assumes "\<And>x s. le_result (f x s) (f' x s)"
  shows "le_result (fold_result f xs s) (fold_result f' xs s)"
  by (induction xs arbitrary: s) (simp_all add: le_result_refl le_result_bind assms)

lemma add_primitive_deps_mono:
  assumes "\<And>d r s. le_result (p d r s) (p' d r s)"
  shows "le_result (add_primitive_deps p ds st) (add_primitive_deps p' ds st)"
proof (induction ds arbitrary: st)
  case Nil
  show ?case by (simp add: le_result_refl)
next
  case (Cons dep ds)
  show ?case
    unfolding add_primitive_deps.simps
    by (intro le_result_option le_result_if le_result_bind le_result_prod assms Cons)
qed

lemma add_primitive_mono: "le_result (add_primitive n name r st) (add_primitive (Suc n) name r st)"
proof (induction n arbitrary: name r st)
  case 0
  show ?case by (simp add: le_result_None)
next
  case (Suc n)
  show ?case
    unfolding add_primitive.simps(2)[of "Suc n" name r st] add_primitive.simps(2)[of n name r st]
    by (intro le_result_bind le_result_prod le_result_refl add_primitive_deps_mono Suc)
qed

lemma add_component_mono: "le_result (add_component n c q acc) (add_component (Suc n) c q acc)"
proof (induction n arbitrary: c q acc)
  case 0
  show ?case by (simp add: le_result_None)
next
  case (Suc n)
  show ?case
    unfolding add_component.simps(2)[of "Suc n" c q acc] add_component.simps(2)[of n c q acc] Let_def
    by (intro le_result_if le_result_bind le_result_refl Suc)
qed

lemma transform_mono: "le_result (transform n p name start seq ps) (transform (Suc n) p name start seq ps)"
proof (induction n arbitrary: start seq ps)
  case 0
  show ?case by (simp add: le_result_None)
next
  case (Suc n)
  show ?case
    unfolding transform.simps(2)[of "Suc n" p name start seq ps] transform.simps(2)[of n p name start seq ps] Let_def
    apply (intro le_result_if le_result_bind le_result_prod le_result_sum Suc | rule le_result_refl)+
    done
qed


lemma visit_pattern_mono: "le_result (visit_pattern n pattern name st) (visit_pattern (Suc n) pattern name st)"
  unfolding visit_pattern_def Let_def
  by (intro le_result_if le_result_bind le_result_refl transform_mono)

lemma resolve_ref_mono:
  assumes "\<And>a b c. le_result (v a b c) (v' a b c)"
  shows "le_result (resolve_ref v ref st) (resolve_ref v' ref st)"
  unfolding resolve_ref_def Let_def
  by (intro le_result_if le_result_bind le_result_refl assms)

lemma generate_union_rule_mono:
  assumes "\<And>a b c. le_result (v a b c) (v' a b c)"
  shows "le_result (generate_union_rule v name alts st) (generate_union_rule v' name alts st)"
  unfolding generate_union_rule_def
  by (intro le_result_bind le_result_refl for_each_mono le_result_prod le_result_prod_app assms)

lemma build_object_rule_mono:
  assumes "\<And>a b c. le_result (v a b c) (v' a b c)"
  shows "le_result (build_object_rule n v props req name ap st) (build_object_rule (Suc n) v' props req name ap st)"
  unfolding build_object_rule_def Let_def
  by (intro le_result_bind le_result_if le_result_prod le_result_prod_app for_each_mono add_primitive_mono assms | rule le_result_refl)+

lemma visit_body_mono:
  assumes "\<And>a b c. le_result (v a b c) (v' a b c)"
  shows "le_result (visit_body n v schema name st) (visit_body (Suc n) v' schema name st)"
  unfolding visit_body_def Let_def
  by (intro le_result_bind le_result_if le_result_prod le_result_prod_app le_result_option for_each_mono fold_result_mono
        add_primitive_mono add_component_mono visit_pattern_mono build_object_rule_mono
        resolve_ref_mono generate_union_rule_mono assms | rule le_result_refl)+

lemma visit_mono_Suc: "le_result (visit n schema name st) (visit (Suc n) schema name st)"
proof (induction n arbitrary: schema name st)
  case 0
  show ?case by (simp add: le_result_None)
next
  case (Suc n)
  show ?case
    unfolding visit.simps(2)[of "Suc n" schema name st] visit.simps(2)[of n schema name st]
    by (rule visit_body_mono) (rule Suc)
qed

lemma visit_refs_node_mono:
  assumes "\<And>a b c. le_result (v a b c) (v' a b c)"
  shows "le_result (visit_refs_node v f url path s) (visit_refs_node v' f url path s)"
  unfolding visit_refs_node_def Let_def
  by (intro le_result_bind le_result_if le_result_prod le_result_prod_app le_result_option for_each_mono assms | rule le_result_refl)+

lemma visit_refs_mono_Suc: "le_result (visit_refs n f url path s) (visit_refs (Suc n) f url path s)"
proof (induction n arbitrary: url path s)
  case 0
  show ?case by (simp add: le_result_None)
next
  case (Suc n)
  show ?case
    unfolding visit_refs.simps(2)[of "Suc n" f url path s] visit_refs.simps(2)[of n f url path s]
    by (rule visit_refs_node_mono) (rule Suc)
qed

lemma json_schema_to_grammar_mono_Suc:
  "le_result (json_schema_to_grammar n R schema) (json_schema_to_grammar (Suc n) R schema)"
  unfolding json_schema_to_grammar_def resolve_refs_def
  by (intro le_result_bind le_result_prod le_result_refl visit_refs_mono_Suc visit_mono_Suc)

lemma conversion_mono_Suc:
  "le_result (conversion n R schema) (conversion (Suc n) R schema)"
  unfolding conversion_def resolve_refs_def
  by (intro le_result_bind le_result_prod le_result_refl visit_refs_mono_Suc visit_mono_Suc)

lemma json_schema_to_grammar_mono:
  "n \<le> m \<Longrightarrow> le_result (json_schema_to_grammar n R schema) (json_schema_to_grammar m R schema)"
proof (induction m)
  case 0
  then show ?case by (simp add: le_result_refl)
next
  case (Suc m)
  show ?case
  proof (cases "n = Suc m")
    case True
    then show ?thesis by (simp add: le_result_refl)
  next
    case False
    with Suc.prems have "n \<le> m" by simp
    then have "le_result (json_schema_to_grammar n R schema) (json_schema_to_grammar m R schema)" by (rule Suc.IH)
    then show ?thesis by (rule le_result_trans) (rule json_schema_to_grammar_mono_Suc)
  qed
qed

lemma conversion_mono:
  "n \<le> m \<Longrightarrow> le_result (conversion n R schema) (conversion m R schema)"
proof (induction m)
  case 0
  then show ?case by (simp add: le_result_refl)
next
  case (Suc m)
  show ?case
  proof (cases "n = Suc m")
    case True
    then show ?thesis by (simp add: le_result_refl)
  next
    case False
    with Suc.prems have "n \<le> m" by simp
    then have "le_result (conversion n R schema) (conversion m R schema)" by (rule Suc.IH)
    then show ?thesis by (rule le_result_trans) (rule conversion_mono_Suc)
  qed
qed

lemma json_schema_to_grammar_fuel:
  "json_schema_to_grammar n R schema = Some r \<Longrightarrow> n \<le> m \<Longrightarrow> json_schema_to_grammar m R schema = Some r"
  using json_schema_to_grammar_mono le_result_Some by blast

lemma conversion_fuel:
  "conversion n R schema = Some r \<Longrightarrow> n \<le> m \<Longrightarrow> conversion m R schema = Some r"
  using conversion_mono le_result_Some by blast

section \<open>The repetition builder\<close>

text \<open>
  C3 (as amended).  With an empty separator, \<open>build_repetition\<close> returns \<open>item?\<close> for
  \<open>min = 0, max = 1\<close> and \<open>item+\<close> for \<open>min = 1\<close> and an unbounded \<open>max\<close>; for \<open>min = 0\<close> and an
  unbounded \<open>max\<close> it returns the parenthesised form \<open>(item)*\<close>, whatever the item and
  whether or not it is a literal.
\<close>

theorem build_repetition_shorthands:
  "build_repetition item 0 1 [] lit = Inr (item @ ''?'')
   \<and> build_repetition item 1 INT_MAX [] lit = Inr (item @ ''+'')
   \<and> build_repetition item 0 INT_MAX [] lit = Inr (''('' @ item @ '')*'')"
  by (simp add: build_repetition_def INT_MAX_def)

theorem build_repetition_shorthands_witness:
  "build_repetition ''[0-9]'' 0 1 [] False = Inr ''[0-9]?''
   \<and> build_repetition ''[0-9]'' 1 INT_MAX [] False = Inr ''[0-9]+''
   \<and> build_repetition ''[0-9]'' 0 INT_MAX [] False = Inr ''([0-9])*''"
  using build_repetition_shorthands [of "''[0-9]''" False] by simp

text \<open>
  C3 (as stated) fails in its third case: for the item \<open>x\<close>, \<open>min = 0\<close> and an unbounded
  \<open>max\<close> the result is \<open>(x)*\<close>, not \<open>x*\<close>.
\<close>

theorem build_repetition_star_counterexample:
  "build_repetition ''x'' 0 INT_MAX [] False = Inr ''(x)*''
   \<and> build_repetition ''x'' 0 INT_MAX [] False \<noteq> Inr ''x*''"
  by (simp add: build_repetition_def INT_MAX_def)

section \<open>The order of the serialised rules\<close>

lemma keys_sorted_list: "RBT.keys t = sorted_list_of_set (dom (RBT.lookup t))"
proof -
  have "sorted (RBT.keys t)" "distinct (RBT.keys t)" "set (RBT.keys t) = dom (RBT.lookup t)"
    by (simp_all add: RBT.lookup_keys)
  then show ?thesis
    by (metis sorted_list_of_set.idem_if_sorted_distinct)
qed

lemma entries_keys: "RBT.entries t = map (\<lambda>k. (k, the (RBT.lookup t k))) (RBT.keys t)"
proof -
  have "map (\<lambda>kv. (fst kv, the (RBT.lookup t (fst kv)))) (RBT.entries t) = map (\<lambda>kv. kv) (RBT.entries t)"
  proof (rule map_cong[OF refl])
    fix kv assume "kv \<in> set (RBT.entries t)"
    then have "RBT.lookup t (fst kv) = Some (snd kv)"
      by (simp add: RBT.lookup_in_tree)
    then show "(fst kv, the (RBT.lookup t (fst kv))) = kv" by simp
  qed
  then show ?thesis by (simp add: RBT.keys_def_alt comp_def)
qed

lemma format_grammar_sorted:
  "format_grammar st = concat (map (\<lambda>k. k @ '' ::= '' @ the (RBT.lookup (rules st) k) @ [nl])
                                (sorted_list_of_set (dom (RBT.lookup (rules st)))))"
  by (simp add: format_grammar_def entries_keys keys_sorted_list[symmetric] comp_def)

lemma bind_eq_Some_Inr:
  "bind m f = Some (Inr y) \<Longrightarrow> \<exists>x. m = Some (Inr x) \<and> f x = Some (Inr y)"
  by (auto simp: bind_def split: option.splits sum.splits)

text \<open>
  C1 (as amended).  Whenever \<open>json_schema_to_grammar\<close> returns a grammar, the text is one
  line \<open>name ::= rhs\<close> per entry of the rule table that \<open>visit\<close> left behind, and the lines
  stand in ascending order of the rule names (the byte-wise lexicographic order of
  \<open>std::map\<close>), each name once.
\<close>

theorem format_grammar_key_order:
  assumes "json_schema_to_grammar fuel R schema = Some (Inr grammar)"
  shows "\<exists>copy st1 root_name st2.
           resolve_refs fuel (\<lambda>url. JObject []) schema ''input'' (SchemaConverter R False) = Some (Inr (copy, st1))
           \<and> visit fuel copy [] st1 = Some (Inr (root_name, st2))
           \<and> grammar = concat (map (\<lambda>k. k @ '' ::= '' @ the (RBT.lookup (rules st2) k) @ [nl])
                                 (sorted_list_of_set (dom (RBT.lookup (rules st2)))))"
proof -
  from assms obtain x1 where 1:
    "resolve_refs fuel (\<lambda>url. JObject []) schema ''input'' (SchemaConverter R False) = Some (Inr x1)"
    and 2: "(case x1 of (copy, st1) \<Rightarrow>
               bind (visit fuel copy [] st1)
                 (\<lambda>(root_name, st2). bind (check_errors st2) (\<lambda>u. return (format_grammar st2))))
            = Some (Inr grammar)"
    unfolding json_schema_to_grammar_def by (blast dest: bind_eq_Some_Inr)
  obtain copy st1 where x1: "x1 = (copy, st1)" by (cases x1)
  from 2 x1 obtain x2 where 3: "visit fuel copy [] st1 = Some (Inr x2)"
    and 4: "(case x2 of (root_name, st2) \<Rightarrow> bind (check_errors st2) (\<lambda>u. return (format_grammar st2)))
            = Some (Inr grammar)"
    by (auto dest: bind_eq_Some_Inr)
  obtain root_name st2 where x2: "x2 = (root_name, st2)" by (cases x2)
  from 4 x2 have "grammar = format_grammar st2"
    by (auto simp: return_def dest!: bind_eq_Some_Inr)
  with 1 3 x1 x2 show ?thesis
    by (auto simp: format_grammar_sorted)
qed

theorem format_grammar_key_order_witness:
  \<open>\<exists>copy st1 root_name st2.
      resolve_refs 2 (\<lambda>url. JObject []) (JObject [(''type'', JString ''boolean'')]) ''input''
        (SchemaConverter {} False) = Some (Inr (copy, st1))
      \<and> visit 2 copy [] st1 = Some (Inr (root_name, st2))
      \<and> ''root ::= ("true" | "false") space'' @ [nl] @ ''space ::= " "?'' @ [nl]
          = concat (map (\<lambda>k. k @ '' ::= '' @ the (RBT.lookup (rules st2) k) @ [nl])
                      (sorted_list_of_set (dom (RBT.lookup (rules st2)))))\<close>
proof -
  have \<open>json_schema_to_grammar 2 {} (JObject [(''type'', JString ''boolean'')])
          = Some (Inr (''root ::= ("true" | "false") space'' @ [nl] @ ''space ::= " "?'' @ [nl]))\<close>
    by code_simp
  then show ?thesis by (rule format_grammar_key_order)
qed

text \<open>
  C1 (as stated) fails.  The constructor stores \<open>space\<close> before the conversion starts, and
  \<open>root\<close> is added by \<open>visit\<close>; the grammar of \<open>{"type": "boolean"}\<close> nevertheless lists
  \<open>root\<close> before \<open>space\<close>.
\<close>

theorem format_grammar_insertion_order_counterexample:
  \<open>RBT.keys (rules (SchemaConverter {} False)) = [''space'']
   \<and> json_schema_to_grammar 2 {} (JObject [(''type'', JString ''boolean'')])
       = Some (Inr (''root ::= ("true" | "false") space'' @ [nl] @ ''space ::= " "?'' @ [nl]))\<close>
  by code_simp

section \<open>The rule-table manager\<close>

lemma to_string_nonempty: "to_string n \<noteq> []"
  by (subst to_string.simps) simp

lemma digit_inj: "a < 10 \<Longrightarrow> b < 10 \<Longrightarrow> ''0123456789'' ! a = ''0123456789'' ! b \<Longrightarrow> a = b"
proof -
  assume a: "a < 10" and b: "b < 10" and e: "''0123456789'' ! a = ''0123456789'' ! b"
  have d: "distinct ''0123456789''" by simp
  from a b have "a < length ''0123456789''" "b < length ''0123456789''" by simp_all
  with d e show "a = b" by (simp only: nth_eq_iff_index_eq)
qed

lemma to_string_inj: "to_string m = to_string n \<Longrightarrow> m = n"
proof (induction m arbitrary: n rule: to_string.induct)
  case (1 m)
  show ?case
  proof (cases "m < 10")
    case True
    then have m: "to_string m = [''0123456789'' ! m]" by (subst to_string.simps) simp
    show ?thesis
    proof (cases "n < 10")
      case True
      then have "to_string n = [''0123456789'' ! n]" by (subst to_string.simps) simp
      with m "1.prems" have "''0123456789'' ! m = ''0123456789'' ! n" by simp
      with \<open>m < 10\<close> \<open>n < 10\<close> show ?thesis by (rule digit_inj)
    next
      case False
      then have "to_string n = to_string (n div 10) @ [''0123456789'' ! (n mod 10)]"
        by (subst to_string.simps) simp
      with m "1.prems" have "to_string (n div 10) = []" by (metis butlast.simps(2) butlast_snoc)
      then show ?thesis by (simp add: to_string_nonempty)
    qed
  next
    case False
    then have m: "to_string m = to_string (m div 10) @ [''0123456789'' ! (m mod 10)]"
      by (subst to_string.simps) simp
    show ?thesis
    proof (cases "n < 10")
      case True
      then have "to_string n = [''0123456789'' ! n]" by (subst to_string.simps) simp
      with m "1.prems" have "to_string (m div 10) = []" by (metis butlast.simps(2) butlast_snoc)
      then show ?thesis by (simp add: to_string_nonempty)
    next
      case n: False
      then have "to_string n = to_string (n div 10) @ [''0123456789'' ! (n mod 10)]"
        by (subst to_string.simps) simp
      with m "1.prems" have e: "to_string (m div 10) = to_string (n div 10)"
        and d: "''0123456789'' ! (m mod 10) = ''0123456789'' ! (n mod 10)" by simp_all
      from "1.IH"[OF False e] have "m div 10 = n div 10" .
      moreover from d have "m mod 10 = n mod 10" by (intro digit_inj) simp_all
      ultimately show ?thesis by (metis div_mult_mod_eq)
    qed
  qed
qed

lemma int_to_string_nonneg: "0 \<le> i \<Longrightarrow> int_to_string i = to_string (nat i)"
  by (simp add: int_to_string_def)

lemma int_to_string_inj: "0 \<le> i \<Longrightarrow> 0 \<le> j \<Longrightarrow> int_to_string i = int_to_string j \<Longrightarrow> i = j"
  using to_string_inj[of "nat i" "nat j"] by (simp add: int_to_string_nonneg)

lemma int_to_string_nonempty: "int_to_string i \<noteq> []"
  by (simp add: int_to_string_def to_string_nonempty)

lemma key_inj: "inj (\<lambda>i::nat. esc @ int_to_string (int i))"
  by (rule injI) (simp add: int_to_string_def to_string_inj)

text \<open>A table of \<open>n\<close> entries cannot hold all of the \<open>n + 1\<close> keys with the suffixes \<open>0\<close> to \<open>n\<close>.\<close>

lemma some_slot_absent:
  "\<exists>i\<le>length (RBT.keys rs). RBT.lookup rs (esc @ int_to_string (int i)) = None"
proof (rule ccontr)
  assume "\<not> ?thesis"
  then have all: "\<forall>i\<le>length (RBT.keys rs). esc @ int_to_string (int i) \<in> set (RBT.keys rs)"
    by (auto simp: RBT.lookup_keys[symmetric] domIff)
  let ?f = "\<lambda>i::nat. esc @ int_to_string (int i)"
  have "?f ` {0..length (RBT.keys rs)} \<subseteq> set (RBT.keys rs)" using all by auto
  then have "card (?f ` {0..length (RBT.keys rs)}) \<le> card (set (RBT.keys rs))"
    by (intro card_mono) simp_all
  moreover have "card (?f ` {0..length (RBT.keys rs)}) = Suc (length (RBT.keys rs))"
    using key_inj[of esc] by (simp add: card_image inj_on_def inj_def)
  moreover have "card (set (RBT.keys rs)) \<le> length (RBT.keys rs)" by (rule card_length)
  ultimately show False by simp
qed

lemma add_rule_loop_least:
  "add_rule_loop rs esc rule i = Inr j \<Longrightarrow>
     i \<le> j \<and> slot_free rs esc rule j \<and> (\<forall>k. i \<le> k \<and> k < j \<longrightarrow> \<not> slot_free rs esc rule k)"
proof (induction rs esc rule i rule: add_rule_loop.induct)
  case (1 rs esc rule i)
  show ?case
  proof (cases "slot_free rs esc rule i")
    case True
    then have "add_rule_loop rs esc rule i = Inr i"
      by (subst add_rule_loop.simps) (auto simp: slot_free_def)
    with "1.prems" True show ?thesis by auto
  next
    case False
    then have nf: "RBT.lookup rs (esc @ int_to_string i) \<noteq> None
                   \<and> RBT.lookup rs (esc @ int_to_string i) \<noteq> Some rule"
      by (simp add: slot_free_def)
    show ?thesis
    proof (cases "i < INT_MAX")
      case True
      with nf have "add_rule_loop rs esc rule i = add_rule_loop rs esc rule (i + 1)"
        by (subst add_rule_loop.simps) simp
      with "1.prems" have "add_rule_loop rs esc rule (i + 1) = Inr j" by simp
      from "1.IH"[OF nf True this] False show ?thesis
        by (metis add1_zle_eq less_le order_less_imp_le zless_imp_add1_zle)
    next
      case F: False
      with nf have "add_rule_loop rs esc rule i = Inl Undefined_behaviour"
        by (subst add_rule_loop.simps) simp
      with "1.prems" show ?thesis by simp
    qed
  qed
qed

lemma add_rule_loop_returns:
  "i \<le> j \<Longrightarrow> j \<le> INT_MAX \<Longrightarrow> slot_free rs esc rule j \<Longrightarrow> \<exists>k. add_rule_loop rs esc rule i = Inr k"
proof (induction rs esc rule i rule: add_rule_loop.induct)
  case (1 rs esc rule i)
  show ?case
  proof (cases "slot_free rs esc rule i")
    case True
    then have "add_rule_loop rs esc rule i = Inr i"
      by (subst add_rule_loop.simps) (auto simp: slot_free_def)
    then show ?thesis by blast
  next
    case False
    then have nf: "RBT.lookup rs (esc @ int_to_string i) \<noteq> None
                   \<and> RBT.lookup rs (esc @ int_to_string i) \<noteq> Some rule"
      by (simp add: slot_free_def)
    from False "1.prems" have "i \<noteq> j" by auto
    with "1.prems" have lt: "i < INT_MAX" "i + 1 \<le> j" by simp_all
    with nf have "add_rule_loop rs esc rule i = add_rule_loop rs esc rule (i + 1)"
      by (subst add_rule_loop.simps) simp
    with "1.IH"[OF nf lt(1) lt(2) "1.prems"(2) "1.prems"(3)] show ?thesis by simp
  qed
qed

lemma add_rule_loop_eq:
  assumes "i0 \<le> j" "j \<le> INT_MAX" "slot_free rs esc rule j"
    and "\<forall>k. i0 \<le> k \<and> k < j \<longrightarrow> \<not> slot_free rs esc rule k"
  shows "add_rule_loop rs esc rule i0 = Inr j"
proof -
  from add_rule_loop_returns[OF assms(1,2,3)] obtain k where k: "add_rule_loop rs esc rule i0 = Inr k"
    by blast
  from add_rule_loop_least[OF k] have "i0 \<le> k" "slot_free rs esc rule k"
    "\<forall>m. i0 \<le> m \<and> m < k \<longrightarrow> \<not> slot_free rs esc rule m" by auto
  with assms have "k = j" by (metis linorder_neqE_linordered_idom)
  with k show ?thesis by simp
qed

lemma add_rule_loop_exists:
  assumes "length (RBT.keys rs) < 2147483648"
  shows "\<exists>i. add_rule_loop rs esc rule 0 = Inr i"
proof -
  from some_slot_absent[of rs esc] obtain n where n: "n \<le> length (RBT.keys rs)"
    "RBT.lookup rs (esc @ int_to_string (int n)) = None" by blast
  with assms have "0 \<le> int n" "int n \<le> INT_MAX" "slot_free rs esc rule (int n)"
    by (simp_all add: INT_MAX_def slot_free_def)
  then show ?thesis by (rule add_rule_loop_returns)
qed

lemma entries_insert_same:
  "RBT.lookup t k = Some v \<Longrightarrow> RBT.entries (RBT.insert k v t) = RBT.entries t"
  by (simp add: RBT.entries_lookup RBT.lookup_insert fun_upd_idem)

text \<open>
  C6.  On a rule table of fewer than \<open>2^31\<close> entries \<open>_add_rule\<close> returns a key and only
  inserts the rule under that key.  The key is the sanitised name when that slot is free,
  and otherwise the sanitised name followed by the least suffix \<open>i \<ge> 0\<close> whose slot is
  free.  No entry that was in the table changes its right-hand side.  A second call with
  the same name and rule returns the same key and leaves the entries of the table as they
  are.
\<close>

theorem add_rule_discipline:
  assumes small: "length (RBT.keys (rules st)) < 2147483648"
  shows "\<exists>key st'. add_rule name rule st = Some (Inr (key, st'))
           \<and> st' = st\<lparr>rules := RBT.insert key rule (rules st)\<rparr>
           \<and> (if RBT.lookup (rules st) (sanitize name) = None \<or> RBT.lookup (rules st) (sanitize name) = Some rule
               then key = sanitize name
               else (\<exists>i. 0 \<le> i \<and> key = sanitize name @ int_to_string i
                        \<and> slot_free (rules st) (sanitize name) rule i
                        \<and> (\<forall>j. 0 \<le> j \<and> j < i \<longrightarrow> \<not> slot_free (rules st) (sanitize name) rule j)))
           \<and> (\<forall>k v. RBT.lookup (rules st) k = Some v \<longrightarrow> RBT.lookup (rules st') k = Some v)
           \<and> (\<exists>st''. add_rule name rule st' = Some (Inr (key, st''))
                    \<and> RBT.entries (rules st'') = RBT.entries (rules st'))"
proof (cases "RBT.lookup (rules st) (sanitize name) = None \<or> RBT.lookup (rules st) (sanitize name) = Some rule")
  case True
  let ?key = "sanitize name"
  let ?st' = "st\<lparr>rules := RBT.insert ?key rule (rules st)\<rparr>"
  from True have 1: "add_rule name rule st = Some (Inr (?key, ?st'))"
    by (simp add: add_rule_def return_def Let_def)
  have 2: "\<forall>k v. RBT.lookup (rules st) k = Some v \<longrightarrow> RBT.lookup (rules ?st') k = Some v"
    using True by (auto simp: RBT.lookup_insert)
  have 3: "add_rule name rule ?st' = Some (Inr (?key, ?st'\<lparr>rules := RBT.insert ?key rule (rules ?st')\<rparr>))"
    by (simp add: add_rule_def return_def Let_def RBT.lookup_insert)
  have 4: "RBT.entries (rules (?st'\<lparr>rules := RBT.insert ?key rule (rules ?st')\<rparr>)) = RBT.entries (rules ?st')"
    by (simp add: entries_insert_same RBT.lookup_insert)
  from True 1 2 3 4 show ?thesis by (intro exI[of _ ?key] exI[of _ ?st']) (simp del: RBT.lookup_insert)
next
  case False
  let ?esc = "sanitize name"
  from add_rule_loop_exists[OF small] obtain i where i: "add_rule_loop (rules st) ?esc rule 0 = Inr i"
    by blast
  let ?key = "?esc @ int_to_string i"
  let ?st' = "st\<lparr>rules := RBT.insert ?key rule (rules st)\<rparr>"
  from add_rule_loop_least[OF i] have least: "0 \<le> i" "slot_free (rules st) ?esc rule i"
    "\<forall>k. 0 \<le> k \<and> k < i \<longrightarrow> \<not> slot_free (rules st) ?esc rule k" by auto
  from False i have 1: "add_rule name rule st = Some (Inr (?key, ?st'))"
    by (auto simp: add_rule_def return_def Let_def)
  have 2: "\<forall>k v. RBT.lookup (rules st) k = Some v \<longrightarrow> RBT.lookup (rules ?st') k = Some v"
    using least(2) by (auto simp: RBT.lookup_insert slot_free_def)
  have ne: "?key \<noteq> ?esc" by (simp add: int_to_string_nonempty)
  have bound: "i \<le> INT_MAX"
  proof (rule ccontr)
    assume "\<not> i \<le> INT_MAX"
    from some_slot_absent[of "rules st" ?esc] obtain n where n: "n \<le> length (RBT.keys (rules st))"
      "RBT.lookup (rules st) (?esc @ int_to_string (int n)) = None" by blast
    with small \<open>\<not> i \<le> INT_MAX\<close> have "0 \<le> int n" "int n < i" "slot_free (rules st) ?esc rule (int n)"
      by (simp_all add: INT_MAX_def slot_free_def)
    with least(3) show False by blast
  qed
  have free': "slot_free (rules ?st') ?esc rule i"
    by (simp add: slot_free_def RBT.lookup_insert)
  have below: "\<forall>k. 0 \<le> k \<and> k < i \<longrightarrow> \<not> slot_free (rules ?st') ?esc rule k"
  proof (intro allI impI)
    fix k assume k: "0 \<le> k \<and> k < i"
    with least(1) have "int_to_string k \<noteq> int_to_string i" using int_to_string_inj[of k i] by auto
    with k least(3) show "\<not> slot_free (rules ?st') ?esc rule k"
      by (simp add: slot_free_def RBT.lookup_insert)
  qed
  have loop': "add_rule_loop (rules ?st') ?esc rule 0 = Inr i"
    using least(1) bound free' below by (rule add_rule_loop_eq)
  from False ne have cond': "\<not> (RBT.lookup (rules ?st') ?esc = None \<or> RBT.lookup (rules ?st') ?esc = Some rule)"
    by (simp add: RBT.lookup_insert)
  have 3: "add_rule name rule ?st' = Some (Inr (?key, ?st'\<lparr>rules := RBT.insert ?key rule (rules ?st')\<rparr>))"
    using cond' loop' by (auto simp: add_rule_def return_def Let_def simp del: RBT.lookup_insert)
  have 4: "RBT.entries (rules (?st'\<lparr>rules := RBT.insert ?key rule (rules ?st')\<rparr>)) = RBT.entries (rules ?st')"
    by (simp add: entries_insert_same RBT.lookup_insert)
  have 5: "\<exists>i. 0 \<le> i \<and> ?key = ?esc @ int_to_string i \<and> slot_free (rules st) ?esc rule i
             \<and> (\<forall>j. 0 \<le> j \<and> j < i \<longrightarrow> \<not> slot_free (rules st) ?esc rule j)"
    using least by blast
  have 6: "if RBT.lookup (rules st) ?esc = None \<or> RBT.lookup (rules st) ?esc = Some rule
           then ?key = ?esc
           else (\<exists>i. 0 \<le> i \<and> ?key = ?esc @ int_to_string i \<and> slot_free (rules st) ?esc rule i
                    \<and> (\<forall>j. 0 \<le> j \<and> j < i \<longrightarrow> \<not> slot_free (rules st) ?esc rule j))"
    unfolding if_not_P[OF False] by (rule 5)
  from 3 4 have 7: "\<exists>st''. add_rule name rule ?st' = Some (Inr (?key, st''))
                        \<and> RBT.entries (rules st'') = RBT.entries (rules ?st')"
    by blast
  from 1 2 6 7 show ?thesis
    by - (rule exI[of _ ?key], rule exI[of _ ?st'], blast)
qed

theorem add_rule_discipline_witness:
  "length (RBT.keys (RBT.insert ''a-b'' ''x'' (RBT.insert ''space'' SPACE_RULE RBT.empty))) = 2
   \<and> (\<exists>st'. add_rule ''a b'' ''y''
                ((SchemaConverter {} False)\<lparr>rules := RBT.insert ''a-b'' ''x'' (RBT.insert ''space'' SPACE_RULE RBT.empty)\<rparr>)
              = Some (Inr (''a-b0'', st'))
            \<and> RBT.lookup (rules st') ''a-b'' = Some ''x''
            \<and> (\<exists>st''. add_rule ''a b'' ''y'' st' = Some (Inr (''a-b0'', st''))
                     \<and> RBT.entries (rules st'') = RBT.entries (rules st')))"
proof -
  let ?st = "(SchemaConverter {} False)\<lparr>rules := RBT.insert ''a-b'' ''x'' (RBT.insert ''space'' SPACE_RULE RBT.empty)\<rparr>"
  have len: "length (RBT.keys (RBT.insert ''a-b'' ''x'' (RBT.insert ''space'' SPACE_RULE RBT.empty))) = 2"
    by code_simp
  then have small: "length (RBT.keys (rules ?st)) < 2147483648" by simp
  have key: "case add_rule ''a b'' ''y'' ?st of Some (Inr (k, s)) \<Rightarrow> k = ''a-b0'' | _ \<Rightarrow> False"
    by code_simp
  have old: "RBT.lookup (rules ?st) ''a-b'' = Some ''x''"
    by (simp add: RBT.lookup_insert)
  from add_rule_discipline[OF small, of "''a b''" "''y''"] obtain k st' where
    1: "add_rule ''a b'' ''y'' ?st = Some (Inr (k, st'))"
    and 2: "\<forall>k v. RBT.lookup (rules ?st) k = Some v \<longrightarrow> RBT.lookup (rules st') k = Some v"
    and 3: "\<exists>st''. add_rule ''a b'' ''y'' st' = Some (Inr (k, st'')) \<and> RBT.entries (rules st'') = RBT.entries (rules st')"
    by blast
  from key 1 have k: "k = ''a-b0''" by simp
  from 2 old have "RBT.lookup (rules st') ''a-b'' = Some ''x''" by blast
  with len 1 3 k show ?thesis by blast
qed

section \<open>The failure channel\<close>

lemma json_schema_to_grammar_conversion:
  "json_schema_to_grammar fuel R schema =
     bind (conversion fuel R schema) (\<lambda>(root_name, st2). bind (check_errors st2) (\<lambda>u. return (format_grammar st2)))"
  by (simp add: json_schema_to_grammar_def conversion_def bind_assoc case_prod_unfold)

lemma join_contains: "e \<in> set es \<Longrightarrow> \<exists>a b. join es sep = a @ e @ b"
proof (cases es)
  case Nil
  assume "e \<in> set es" with Nil show ?thesis by simp
next
  case (Cons x xs)
  assume e: "e \<in> set es"
  show ?thesis
  proof (cases "e = x")
    case True
    with Cons have "join es sep = [] @ e @ concat (map (\<lambda>y. sep @ y) xs)" by simp
    then show ?thesis by blast
  next
    case False
    with e Cons have "e \<in> set xs" by simp
    then obtain ys zs where "xs = ys @ e # zs" by (auto simp: in_set_conv_decomp)
    with Cons have "join es sep = (x @ concat (map (\<lambda>y. sep @ y) ys) @ sep) @ e @ concat (map (\<lambda>y. sep @ y) zs)"
      by simp
    then show ?thesis by blast
  qed
qed

text \<open>
  C7 (as amended).  When the conversion has run to its end with the state \<open>st\<close>: if no
  error was recorded the grammar text of \<open>st\<close> is returned and nothing is thrown; if an
  error was recorded the call returns no text but throws one \<open>runtime_error\<close>, whose message
  is the header line followed by all recorded messages joined by line feeds, so that each
  of them occurs in it.  When an exception leaves the conversion, \<open>check_errors\<close> is not
  reached: \<open>json_schema_to_grammar\<close> has no handler, the call throws that same exception and
  returns no text.
\<close>

theorem check_errors_aggregates:
  "(\<forall>root_name st.
      conversion fuel R schema = Some (Inr (root_name, st)) \<longrightarrow>
      (if errors st = [] then json_schema_to_grammar fuel R schema = Some (Inr (format_grammar st))
       else json_schema_to_grammar fuel R schema
              = Some (Inl (Runtime_error (''JSON schema conversion failed:'' @ [nl] @ join (errors st) [nl])))
            \<and> (\<forall>e\<in>set (errors st). \<exists>a b. ''JSON schema conversion failed:'' @ [nl] @ join (errors st) [nl] = a @ e @ b)))
   \<and> (\<forall>e. conversion fuel R schema = Some (Inl e) \<longrightarrow> json_schema_to_grammar fuel R schema = Some (Inl e))"
proof (intro conjI allI impI)
  fix root_name st
  assume c: "conversion fuel R schema = Some (Inr (root_name, st))"
  show "if errors st = [] then json_schema_to_grammar fuel R schema = Some (Inr (format_grammar st))
        else json_schema_to_grammar fuel R schema
               = Some (Inl (Runtime_error (''JSON schema conversion failed:'' @ [nl] @ join (errors st) [nl])))
             \<and> (\<forall>e\<in>set (errors st). \<exists>a b. ''JSON schema conversion failed:'' @ [nl] @ join (errors st) [nl] = a @ e @ b)"
  proof (cases "errors st = []")
    case True
    with c show ?thesis
      by (simp add: json_schema_to_grammar_conversion check_errors_def return_def)
  next
    case False
    have "\<forall>e\<in>set (errors st). \<exists>a b. ''JSON schema conversion failed:'' @ [nl] @ join (errors st) [nl] = a @ e @ b"
    proof
      fix e assume "e \<in> set (errors st)"
      then obtain a b where "join (errors st) [nl] = a @ e @ b" using join_contains by blast
      then have "''JSON schema conversion failed:'' @ [nl] @ join (errors st) [nl]
                   = (''JSON schema conversion failed:'' @ [nl] @ a) @ e @ b" by simp
      then show "\<exists>a b. ''JSON schema conversion failed:'' @ [nl] @ join (errors st) [nl] = a @ e @ b" by blast
    qed
    with False c show ?thesis
      by (simp add: json_schema_to_grammar_conversion check_errors_def throw_def)
  qed
next
  fix e
  assume "conversion fuel R schema = Some (Inl e)"
  then show "json_schema_to_grammar fuel R schema = Some (Inl e)"
    by (simp add: json_schema_to_grammar_conversion)
qed

theorem check_errors_aggregates_witness:
  \<open>(\<exists>root_name st.
      conversion 4 {} (JObject [(''anyOf'', JArray [JObject [(''type'', JString ''foo'')], JObject [(''type'', JString ''bar'')]])])
        = Some (Inr (root_name, st))
      \<and> errors st = [''Unrecognized schema: {"type":"foo"}'', ''Unrecognized schema: {"type":"bar"}'']
      \<and> json_schema_to_grammar 4 {} (JObject [(''anyOf'', JArray [JObject [(''type'', JString ''foo'')], JObject [(''type'', JString ''bar'')]])])
        = Some (Inl (Runtime_error (''JSON schema conversion failed:'' @ [nl]
             @ ''Unrecognized schema: {"type":"foo"}'' @ [nl] @ ''Unrecognized schema: {"type":"bar"}''))))
   \<and> (\<exists>root_name st.
      conversion 2 {} (JObject [(''type'', JString ''boolean'')]) = Some (Inr (root_name, st))
      \<and> errors st = []
      \<and> json_schema_to_grammar 2 {} (JObject [(''type'', JString ''boolean'')]) = Some (Inr (format_grammar st)))
   \<and> conversion 2 {} (JObject [(''type'', JString ''string''), (''pattern'', JInt 5)]) = Some (Inl Type_error)
   \<and> json_schema_to_grammar 2 {} (JObject [(''type'', JString ''string''), (''pattern'', JInt 5)])
        = Some (Inl Type_error)\<close>
proof -
  let ?schema = "JObject [(''anyOf'', JArray [JObject [(''type'', JString ''foo'')], JObject [(''type'', JString ''bar'')]])]"
  have \<open>case conversion 4 {} ?schema of
          Some (Inr (r, st)) \<Rightarrow> errors st = [''Unrecognized schema: {"type":"foo"}'', ''Unrecognized schema: {"type":"bar"}'']
        | _ \<Rightarrow> False\<close>
    by code_simp
  then obtain r st where c: "conversion 4 {} ?schema = Some (Inr (r, st))"
    and e: \<open>errors st = [''Unrecognized schema: {"type":"foo"}'', ''Unrecognized schema: {"type":"bar"}'']\<close>
    by (auto split: option.splits sum.splits)
  from check_errors_aggregates[of 4 "{}" ?schema] c
  have "if errors st = [] then json_schema_to_grammar 4 {} ?schema = Some (Inr (format_grammar st))
        else json_schema_to_grammar 4 {} ?schema
               = Some (Inl (Runtime_error (''JSON schema conversion failed:'' @ [nl] @ join (errors st) [nl])))
             \<and> (\<forall>e\<in>set (errors st). \<exists>a b. ''JSON schema conversion failed:'' @ [nl] @ join (errors st) [nl] = a @ e @ b)"
    by blast
  with e c have 1: \<open>\<exists>root_name st.
      conversion 4 {} ?schema = Some (Inr (root_name, st))
      \<and> errors st = [''Unrecognized schema: {"type":"foo"}'', ''Unrecognized schema: {"type":"bar"}'']
      \<and> json_schema_to_grammar 4 {} ?schema
        = Some (Inl (Runtime_error (''JSON schema conversion failed:'' @ [nl]
             @ ''Unrecognized schema: {"type":"foo"}'' @ [nl] @ ''Unrecognized schema: {"type":"bar"}'')))\<close>
    by auto
  let ?boolean = "JObject [(''type'', JString ''boolean'')]"
  have "case conversion 2 {} ?boolean of Some (Inr (r, st)) \<Rightarrow> errors st = [] | _ \<Rightarrow> False"
    by code_simp
  then obtain r' st' where c': "conversion 2 {} ?boolean = Some (Inr (r', st'))" and e': "errors st' = []"
    by (auto split: option.splits sum.splits)
  from check_errors_aggregates[of 2 "{}" ?boolean] c'
  have "if errors st' = [] then json_schema_to_grammar 2 {} ?boolean = Some (Inr (format_grammar st'))
        else json_schema_to_grammar 2 {} ?boolean
               = Some (Inl (Runtime_error (''JSON schema conversion failed:'' @ [nl] @ join (errors st') [nl])))
             \<and> (\<forall>e\<in>set (errors st'). \<exists>a b. ''JSON schema conversion failed:'' @ [nl] @ join (errors st') [nl] = a @ e @ b)"
    by blast
  with e' c' have 2: "\<exists>root_name st.
      conversion 2 {} ?boolean = Some (Inr (root_name, st))
      \<and> errors st = []
      \<and> json_schema_to_grammar 2 {} ?boolean = Some (Inr (format_grammar st))"
    by auto
  let ?bad = "JObject [(''type'', JString ''string''), (''pattern'', JInt 5)]"
  have "case conversion 2 {} ?bad of Some (Inl Type_error) \<Rightarrow> True | _ \<Rightarrow> False"
    by code_simp
  then have c'': "conversion 2 {} ?bad = Some (Inl Type_error)"
    by (auto split: option.splits sum.splits failure.splits)
  from check_errors_aggregates[of 2 "{}" ?bad] c''
  have 3: "json_schema_to_grammar 2 {} ?bad = Some (Inl Type_error)"
    by blast
  from 1 2 c'' 3 show ?thesis by blast
qed

text \<open>
  C7 (as stated) fails.  The converter catches none of the type errors of the JSON
  library.  In the string schema whose \<open>pattern\<close> is the number \<open>5\<close>, \<open>resolve_refs\<close> records
  no error and \<open>visit\<close> throws the type error when it reads the pattern as a string: the
  call fails although no error was recorded.  Under \<open>anyOf\<close>, after an alternative for which
  \<open>Unrecognized schema\<close> has been recorded, the failure is the same type error: it is not
  the aggregated failure, and it carries none of the recorded messages.
\<close>

theorem exception_escapes_counterexample:
  \<open>(case resolve_refs 2 (\<lambda>url. JObject []) (JObject [(''type'', JString ''string''), (''pattern'', JInt 5)])
            ''input'' (SchemaConverter {} False) of
       Some (Inr (copy, st1)) \<Rightarrow>
         errors st1 = [] \<and> (case visit 2 copy [] st1 of Some (Inl Type_error) \<Rightarrow> True | _ \<Rightarrow> False)
     | _ \<Rightarrow> False)
   \<and> json_schema_to_grammar 2 {} (JObject [(''type'', JString ''string''), (''pattern'', JInt 5)])
     = Some (Inl Type_error)
   \<and> map_option (map_sum id (\<lambda>(root_name, st). errors st))
        (conversion 4 {} (JObject [(''anyOf'', JArray [JObject [(''type'', JString ''foo'')]])]))
     = Some (Inr [''Unrecognized schema: {"type":"foo"}''])
   \<and> json_schema_to_grammar 4 {}
        (JObject [(''anyOf'', JArray [JObject [(''type'', JString ''foo'')],
                                     JObject [(''type'', JString ''string''), (''pattern'', JInt 5)]])])
     = Some (Inl Type_error)
   \<and> (\<forall>msg. Type_error \<noteq> Runtime_error msg)\<close>
proof -
  have 0: \<open>case resolve_refs 2 (\<lambda>url. JObject []) (JObject [(''type'', JString ''string''), (''pattern'', JInt 5)])
            ''input'' (SchemaConverter {} False) of
       Some (Inr (copy, st1)) \<Rightarrow>
         errors st1 = [] \<and> (case visit 2 copy [] st1 of Some (Inl Type_error) \<Rightarrow> True | _ \<Rightarrow> False)
     | _ \<Rightarrow> False\<close>
    by code_simp
  have 1: \<open>json_schema_to_grammar 2 {} (JObject [(''type'', JString ''string''), (''pattern'', JInt 5)])
     = Some (Inl Type_error)\<close>
    by code_simp
  have 2: \<open>map_option (map_sum id (\<lambda>(root_name, st). errors st))
        (conversion 4 {} (JObject [(''anyOf'', JArray [JObject [(''type'', JString ''foo'')]])]))
     = Some (Inr [''Unrecognized schema: {"type":"foo"}''])\<close>
    by code_simp
  have 3: \<open>json_schema_to_grammar 4 {}
        (JObject [(''anyOf'', JArray [JObject [(''type'', JString ''foo'')],
                                     JObject [(''type'', JString ''string''), (''pattern'', JInt 5)]])])
     = Some (Inl Type_error)\<close>
    by code_simp
  from 0 1 2 3 show ?thesis by simp
qed

section \<open>Patterns that are not anchored\<close>

lemma visit_pattern_unanchored:
  "\<not> (str_front pattern = Some CHR ''^'' \<and> str_back pattern = Some CHR ''$'')
   \<Longrightarrow> visit_pattern fuel pattern name st = return ([], add_error anchor_error st)"
  by (simp add: visit_pattern_def anchor_error_def)


lemma bind_format_const:
  assumes "c \<longrightarrow> is_string x"
  shows "bind (if c then lift (get_string x) else return []) (\<lambda>schema_format. k) = k"
proof (cases c)
  case True
  with assms obtain s where "x = JString s" by (cases x) (simp_all add: is_string_def)
  with True show ?thesis by (simp add: get_string_def)
next
  case False
  then show ?thesis by simp
qed

text \<open>On a schema that reaches the pattern branch, \<open>visit\<close> is the call of \<open>_visit_pattern\<close>.\<close>

lemma visit_pattern_branch:
  assumes "reaches_pattern_branch schema"
  shows "visit (Suc fuel) schema name st =
           bind (lift (get_string (json_at schema ''pattern'')))
             (\<lambda>pattern. visit_pattern fuel pattern
                (if fst (is_reserved_name name (RESERVED_NAMES st)) then name @ ''-''
                 else if name = [] then ''root'' else name)
                (st\<lparr>RESERVED_NAMES := snd (is_reserved_name name (RESERVED_NAMES st))\<rparr>))"
proof -
  from assms have
    f: "contains schema ''format'' \<longrightarrow> is_string (json_at schema ''format'')"
    and c: "\<not> contains schema ''$ref''"
      "\<not> (contains schema ''oneOf'' \<or> contains schema ''anyOf'')"
      "\<not> is_array (if contains schema ''type'' then json_at schema ''type'' else JNull)"
      "\<not> contains schema ''const''"
      "\<not> contains schema ''enum''"
      "\<not> ((is_null (if contains schema ''type'' then json_at schema ''type'' else JNull)
            \<or> (if contains schema ''type'' then json_at schema ''type'' else JNull) = JString ''object'')
           \<and> (contains schema ''properties''
                \<or> (contains schema ''additionalProperties''
                    \<and> json_at schema ''additionalProperties'' \<noteq> JBool True)))"
      "\<not> ((is_null (if contains schema ''type'' then json_at schema ''type'' else JNull)
            \<or> (if contains schema ''type'' then json_at schema ''type'' else JNull) = JString ''object'')
           \<and> contains schema ''allOf'')"
      "\<not> ((is_null (if contains schema ''type'' then json_at schema ''type'' else JNull)
            \<or> (if contains schema ''type'' then json_at schema ''type'' else JNull) = JString ''array'')
           \<and> (contains schema ''items'' \<or> contains schema ''prefixItems''))"
      "(is_null (if contains schema ''type'' then json_at schema ''type'' else JNull)
            \<or> (if contains schema ''type'' then json_at schema ''type'' else JNull) = JString ''string'')
           \<and> contains schema ''pattern''"
    unfolding reaches_pattern_branch_def Let_def by blast+
  have "visit (Suc fuel) schema name st =
          bind (if contains schema ''format'' then lift (get_string (json_at schema ''format'')) else return [])
            (\<lambda>schema_format.
               bind (lift (get_string (json_at schema ''pattern'')))
                 (\<lambda>pattern. visit_pattern fuel pattern
                    (if fst (is_reserved_name name (RESERVED_NAMES st)) then name @ ''-''
                     else if name = [] then ''root'' else name)
                    (st\<lparr>RESERVED_NAMES := snd (is_reserved_name name (RESERVED_NAMES st))\<rparr>)))"
    unfolding visit.simps visit_body_def Let_def
    by (simp only: c if_False if_True simp_thms)
  then show ?thesis by (simp only: bind_format_const[OF f])
qed

lemma visit_unanchored:
  assumes "reaches_pattern_branch schema" and "json_at schema ''pattern'' = JString pattern"
    and "\<not> (str_front pattern = Some CHR ''^'' \<and> str_back pattern = Some CHR ''$'')"
  shows "visit (Suc fuel) schema name st
           = Some (Inr ([], st\<lparr>RESERVED_NAMES := snd (is_reserved_name name (RESERVED_NAMES st)),
                              errors := errors st @ [anchor_error]\<rparr>))"
  using assms(2,3)
  by (simp add: visit_pattern_branch[OF assms(1)] get_string_def visit_pattern_unanchored add_error_def return_def
        del: visit.simps)



lemma reaches_pattern_only:
  "reaches_pattern_branch (JObject [(''pattern'', JString p)])"
  by (simp add: reaches_pattern_branch_def is_array_def is_null_def)




text \<open>
  C10.  The empty pattern has no first and no last character, so the anchoring test does
  not succeed: \<open>_visit_pattern\<close>, and \<open>visit\<close> on every schema that reaches the pattern branch
  with the empty pattern, record the anchoring error and emit no rule.
\<close>

theorem empty_pattern_takes_error_branch:
  assumes "reaches_pattern_branch schema" and "json_at schema ''pattern'' = JString []"
  shows "str_front [] = None \<and> str_back [] = None
         \<and> visit_pattern fuel [] name st = Some (Inr ([], st\<lparr>errors := errors st @ [anchor_error]\<rparr>))
         \<and> visit (Suc fuel) schema name st
             = Some (Inr ([], st\<lparr>RESERVED_NAMES := snd (is_reserved_name name (RESERVED_NAMES st)),
                                errors := errors st @ [anchor_error]\<rparr>))"
proof -
  have e: "\<not> (str_front [] = Some CHR ''^'' \<and> str_back [] = Some CHR ''$'')"
    by (simp add: str_front_def)
  then have "visit_pattern fuel [] name st = Some (Inr ([], st\<lparr>errors := errors st @ [anchor_error]\<rparr>))"
    by (simp add: visit_pattern_unanchored add_error_def return_def)
  moreover note visit_unanchored[OF assms e]
  moreover have "str_front [] = None \<and> str_back [] = None"
    by (simp add: str_front_def str_back_def)
  ultimately show ?thesis by blast
qed

theorem empty_pattern_takes_error_branch_witness:
  "visit 1 (JObject [(''pattern'', JString [])]) [] (SchemaConverter {} False)
     = Some (Inr ([], (SchemaConverter {} False)\<lparr>RESERVED_NAMES := ALL_RESERVED_NAMES, errors := [anchor_error]\<rparr>))"
proof -
  have 1: "reaches_pattern_branch (JObject [(''pattern'', JString [])])" by (rule reaches_pattern_only)
  have 2: "json_at (JObject [(''pattern'', JString [])]) ''pattern'' = JString []" by simp
  from empty_pattern_takes_error_branch[OF 1 2, of 0 "[]" "SchemaConverter {} False"]
  show ?thesis
    by (simp add: SchemaConverter_def is_reserved_name_def del: visit.simps)
qed

section \<open>The empty schema\<close>

text \<open>
  C2 (as amended).  The empty schema \<open>{}\<close> compiles to the grammar below, under every
  bound of at least five nested calls: its root is the rule \<open>root ::= object\<close>, a
  reference to the \<open>object\<close> primitive, which is emitted with the rules it depends on
  (\<open>value\<close> among them).  The root accepts what \<open>object\<close> accepts.
\<close>

theorem empty_schema_grammar:
  assumes "5 \<le> fuel"
  shows \<open>json_schema_to_grammar fuel {} (JObject [])
     = Some (Inr (''array ::= "[" space ( value ("," space value)* )? "]" space'' @ [nl]
  @ ''boolean ::= ("true" | "false") space'' @ [nl]
  @ ''char ::= [^"'' @ [bsl] @ [bsl] @ ''] | "'' @ [bsl] @ [bsl] @ ''" (["'' @ [bsl] @ [bsl] @ ''/bfnrt] | "u" [0-9a-fA-F] [0-9a-fA-F] [0-9a-fA-F] [0-9a-fA-F])'' @ [nl]
  @ ''decimal-part ::= [0-9] ([0-9] ([0-9] ([0-9] ([0-9] ([0-9] ([0-9] ([0-9] ([0-9] ([0-9] ([0-9] ([0-9] ([0-9] ([0-9] ([0-9] ([0-9])?)?)?)?)?)?)?)?)?)?)?)?)?)?)?'' @ [nl]
  @ ''integral-part ::= [0-9] | [1-9] ([0-9] ([0-9] ([0-9] ([0-9] ([0-9] ([0-9] ([0-9] ([0-9] ([0-9] ([0-9] ([0-9] ([0-9] ([0-9] ([0-9] ([0-9])?)?)?)?)?)?)?)?)?)?)?)?)?)?)?'' @ [nl]
  @ ''null ::= "null" space'' @ [nl]
  @ ''number ::= ("-"? integral-part) ("." decimal-part)? ([eE] [-+]? integral-part)? space'' @ [nl]
  @ ''object ::= "{" space ( string ":" space value ("," space string ":" space value)* )? "}" space'' @ [nl]
  @ ''root ::= object'' @ [nl]
  @ ''space ::= " "?'' @ [nl]
  @ ''string ::= "'' @ [bsl] @ ''"" char* "'' @ [bsl] @ ''"" space'' @ [nl]
  @ ''value ::= object | array | string | number | boolean | null'' @ [nl]))\<close>
    (is "_ = ?grammar")
proof -
  have "json_schema_to_grammar 5 {} (JObject []) = ?grammar"
    by code_simp
  then show ?thesis using assms by (rule json_schema_to_grammar_fuel)
qed

theorem empty_schema_grammar_witness:
  \<open>json_schema_to_grammar 8 {} (JObject [])
     = Some (Inr (''array ::= "[" space ( value ("," space value)* )? "]" space'' @ [nl]
  @ ''boolean ::= ("true" | "false") space'' @ [nl]
  @ ''char ::= [^"'' @ [bsl] @ [bsl] @ ''] | "'' @ [bsl] @ [bsl] @ ''" (["'' @ [bsl] @ [bsl] @ ''/bfnrt] | "u" [0-9a-fA-F] [0-9a-fA-F] [0-9a-fA-F] [0-9a-fA-F])'' @ [nl]
  @ ''decimal-part ::= [0-9] ([0-9] ([0-9] ([0-9] ([0-9] ([0-9] ([0-9] ([0-9] ([0-9] ([0-9] ([0-9] ([0-9] ([0-9] ([0-9] ([0-9] ([0-9])?)?)?)?)?)?)?)?)?)?)?)?)?)?)?'' @ [nl]
  @ ''integral-part ::= [0-9] | [1-9] ([0-9] ([0-9] ([0-9] ([0-9] ([0-9] ([0-9] ([0-9] ([0-9] ([0-9] ([0-9] ([0-9] ([0-9] ([0-9] ([0-9] ([0-9])?)?)?)?)?)?)?)?)?)?)?)?)?)?)?'' @ [nl]
  @ ''null ::= "null" space'' @ [nl]
  @ ''number ::= ("-"? integral-part) ("." decimal-part)? ([eE] [-+]? integral-part)? space'' @ [nl]
  @ ''object ::= "{" space ( string ":" space value ("," space string ":" space value)* )? "}" space'' @ [nl]
  @ ''root ::= object'' @ [nl]
  @ ''space ::= " "?'' @ [nl]
  @ ''string ::= "'' @ [bsl] @ ''"" char* "'' @ [bsl] @ ''"" space'' @ [nl]
  @ ''value ::= object | array | string | number | boolean | null'' @ [nl]))\<close>
  using empty_schema_grammar[of 8] by simp

text \<open>
  C2 (as stated) fails: the only rule for \<open>root\<close> in the grammar of \<open>{}\<close> is
  \<open>root ::= object\<close>, so the root derives JSON objects only (every text it derives starts
  with an opening brace), while \<open>value\<close> also derives arrays, strings, numbers, booleans
  and \<open>null\<close>.
\<close>

theorem empty_schema_root_counterexample:
  "map_option (map_sum id (\<lambda>grammar. filter (\<lambda>line. take 9 line = ''root ::= '') (split grammar nl)))
     (json_schema_to_grammar 5 {} (JObject []))
   = Some (Inr [''root ::= object''])"
  by code_simp

section \<open>References to rules\<close>

text \<open>
  C4 does not hold of the code.  In the schema \<open>cyclic_reserved_schema\<close> the reference under
  \<open>next\<close> is met while \<open>#/$defs/string\<close> is being resolved, and \<open>_resolve_ref\<close> answers with the
  last path component \<open>string\<close>.  The rule of the definition itself is installed by \<open>visit\<close>
  under \<open>string-\<close>, since \<open>string\<close> is a reserved name.  The conversion records no error,
  and the grammar has the rule \<open>string-next ::= string\<close> but no rule \<open>string\<close>.
\<close>

theorem dangling_rule_reference:
  \<open>json_schema_to_grammar 5 {} cyclic_reserved_schema
   = Some (Inr (''a ::= string-'' @ [nl]
  @ ''a-kv ::= "'' @ [bsl] @ ''"a'' @ [bsl] @ ''"" space ":" space a'' @ [nl]
  @ ''root ::= "{" space  (a-kv )? "}" space'' @ [nl]
  @ ''space ::= " "?'' @ [nl]
  @ ''string- ::= "{" space  (string-next-kv )? "}" space'' @ [nl]
  @ ''string-next ::= string'' @ [nl]
  @ ''string-next-kv ::= "'' @ [bsl] @ ''"next'' @ [bsl] @ ''"" space ":" space string-next'' @ [nl]))
  \<and> (case conversion 5 {} cyclic_reserved_schema of
        Some (Inr (root_name, st)) \<Rightarrow>
          errors st = [] \<and> RBT.lookup (rules st) ''string-next'' = Some ''string''
          \<and> RBT.lookup (rules st) ''string'' = None
          \<and> RBT.keys (rules st) = [''a'', ''a-kv'', ''root'', ''space'', ''string-'', ''string-next'', ''string-next-kv'']
      | _ \<Rightarrow> False)\<close>
  by code_simp

section \<open>Reference cycles\<close>

lemma resolve_ref_in_progress:
  "ref \<in> refs_being_resolved st \<Longrightarrow> resolve_ref v ref st = return (after_last_slash ref, st)"
  by (simp add: resolve_ref_def Let_def)

lemma add_component_self_ref:
  "refs st ref = Some (JObject [(''$ref'', JString ref)])
   \<Longrightarrow> add_component fuel (JObject [(''$ref'', JString ref)]) is_required (properties, required, st) = None"
  by (induction fuel) (simp_all add: get_string_def Let_def)

lemma resolve_refs_allOf_cycle_small:
  "resolve_refs 0 f allOf_cycle_schema ''input'' st = None"
  "resolve_refs (Suc 0) f allOf_cycle_schema ''input'' st = None"
  "resolve_refs (Suc (Suc 0)) f allOf_cycle_schema ''input'' st = None"
  by (simp_all add: resolve_refs_def allOf_cycle_schema_def visit_refs_node_def is_array_def is_object_def
        items_def elements_def Let_def)

lemma resolve_refs_allOf_cycle:
  "resolve_refs (Suc (Suc (Suc fuel))) f allOf_cycle_schema ''input'' (SchemaConverter R False)
     = return (JObject [(''$defs'', JObject [(''A'', JObject [(''$ref'', JString ''input#/$defs/A'')])]),
                        (''allOf'', JArray [JObject [(''$ref'', JString ''input#/$defs/A'')]])],
               (SchemaConverter R False)\<lparr>refs := [''input#/$defs/A'' \<mapsto> JObject [(''$ref'', JString ''input#/$defs/A'')]]\<rparr>)"
  by (simp add: resolve_refs_def allOf_cycle_schema_def visit_refs_node_def is_array_def is_object_def
        items_def elements_def Let_def get_string_def SchemaConverter_def store_target_def
        after_hash_def split_def set_member_def is_null_def)


lemma visit_allOf_cycle:
  "refs st ''input#/$defs/A'' = Some (JObject [(''$ref'', JString ''input#/$defs/A'')])
   \<Longrightarrow> visit fuel (JObject [(''$defs'', JObject [(''A'', JObject [(''$ref'', JString ''input#/$defs/A'')])]),
                            (''allOf'', JArray [JObject [(''$ref'', JString ''input#/$defs/A'')]])]) name st = None"
  by (cases fuel)
     (simp_all add: visit_body_def Let_def is_null_def is_array_def elements_def add_component_self_ref)

text \<open>
  C5 does not hold of the code.  \<open>_resolve_ref\<close> stops at a reference that is being resolved
  (\<open>resolve_ref_in_progress\<close>), but the \<open>allOf\<close> branch follows references with its own lambda
  \<open>add_component\<close>, which never looks at the set of references in progress.  For
  \<open>allOf_cycle_schema\<close> the reference index maps \<open>input#/$defs/A\<close> to a schema that is again a
  reference to \<open>input#/$defs/A\<close>, and \<open>add_component\<close> calls itself without end: no bound on the
  nesting is enough for \<open>json_schema_to_grammar\<close> to return.
\<close>

theorem allOf_reference_cycle_diverges:
  "json_schema_to_grammar fuel R allOf_cycle_schema = None"
proof -
  consider "fuel = 0" | "fuel = Suc 0" | "fuel = Suc (Suc 0)" | n where "fuel = Suc (Suc (Suc n))"
    by (metis not0_implies_Suc)
  then show ?thesis
  proof cases
    case 1
    then show ?thesis by (simp add: json_schema_to_grammar_def resolve_refs_allOf_cycle_small)
  next
    case 2
    then show ?thesis by (simp add: json_schema_to_grammar_def resolve_refs_allOf_cycle_small)
  next
    case 3
    then show ?thesis by (simp add: json_schema_to_grammar_def resolve_refs_allOf_cycle_small)
  next
    case (4 n)
    then show ?thesis
      by (simp add: json_schema_to_grammar_def resolve_refs_allOf_cycle visit_allOf_cycle del: visit.simps)
  qed
qed

section \<open>Two runs on the same input\<close>

lemma ALL_RESERVED_NAMES_nonempty: "ALL_RESERVED_NAMES \<noteq> {}"
  by (simp add: ALL_RESERVED_NAMES_def)

lemma is_reserved_name_cache:
  "R = {} \<or> R = ALL_RESERVED_NAMES \<Longrightarrow> is_reserved_name name R = (name \<in> ALL_RESERVED_NAMES, ALL_RESERVED_NAMES)"
  by (auto simp: is_reserved_name_def ALL_RESERVED_NAMES_nonempty)

lemma visit_static:
  assumes "R = {} \<or> R = ALL_RESERVED_NAMES"
  shows "visit fuel schema name (st\<lparr>RESERVED_NAMES := R\<rparr>)
           = visit fuel schema name (st\<lparr>RESERVED_NAMES := ALL_RESERVED_NAMES\<rparr>)"
proof (cases fuel)
  case 0
  then show ?thesis by simp
next
  case (Suc n)
  have "is_reserved_name name R = is_reserved_name name ALL_RESERVED_NAMES"
    using assms by (simp add: is_reserved_name_cache)
  then show ?thesis
    unfolding Suc visit.simps visit_body_def by simp
qed

lemma map_result_simps [simp]:
  "map_result g None = None"
  "map_result g (Some (Inl e)) = Some (Inl e)"
  "map_result g (Some (Inr x)) = Some (Inr (g x))"
  "map_result g (return x) = return (g x)"
  "map_result g (throw e) = throw e"
  by (simp_all add: map_result_def return_def throw_def)

lemma map_result_bind: "map_result g (bind m f) = bind m (\<lambda>x. map_result g (f x))"
  by (simp add: map_result_def bind_assoc)

lemma bind_map_result: "bind (map_result g m) f = bind m (\<lambda>x. f (g x))"
  by (simp add: map_result_def bind_assoc)

lemma store_target_static:
  "store_target ref target schema (st\<lparr>RESERVED_NAMES := R\<rparr>)
     = map_result (set_static R) (store_target ref target schema st)"
  by (cases st) (simp add: store_target_def add_error_def set_static_def split: sum.splits prod.splits)

lemma for_each_static:
  assumes "\<And>x s. f x (set_static R s) = map_result (\<lambda>(y, s'). (y, set_static R s')) (f x s)"
  shows "for_each f xs (set_static R s)
           = map_result (\<lambda>(ys, s'). (ys, set_static R s')) (for_each f xs s)"
proof (induction xs arbitrary: s)
  case Nil
  then show ?case by simp
next
  case (Cons x xs)
  show ?case
    by (simp add: assms Cons.IH bind_map_result map_result_bind case_prod_unfold)
qed

lemma visit_refs_node_static:
  assumes "\<And>url path s. v url path (set_static R s) = map_result (set_static R) (v url path s)"
  shows "visit_refs_node v f url path (set_static R s)
           = map_result (set_static R) (visit_refs_node v f url path s)"
proof -
  have loop: "for_each (\<lambda>x s1. bind (v url (path @ [g x]) s1) (\<lambda>s2. return ((), s2))) xs (set_static R s)
        = map_result (\<lambda>(ys, s'). (ys, set_static R s'))
            (for_each (\<lambda>x s1. bind (v url (path @ [g x]) s1) (\<lambda>s2. return ((), s2))) xs s)" for g :: "'x \<Rightarrow> selector" and xs
    by (rule for_each_static) (simp add: assms bind_map_result map_result_bind)
  obtain schema st where s: "s = (schema, st)" by (cases s)
  have [simp]: "set_static R (schema, st) = (schema, st\<lparr>RESERVED_NAMES := R\<rparr>)"
    by (simp add: set_static_def)
  have v': "v url' path' (schema', st'\<lparr>RESERVED_NAMES := R\<rparr>) = map_result (set_static R) (v url' path' (schema', st'))" 
    for url' path' schema' st'
    using assms[of url' path' "(schema', st')"] by (simp add: set_static_def)
  have comm [simp]: "st'\<lparr>RESERVED_NAMES := R, refs := x\<rparr> = st'\<lparr>refs := x, RESERVED_NAMES := R\<rparr>" for st' x
    by (cases st') simp
  have comm2 [simp]: "st'\<lparr>RESERVED_NAMES := R, errors := y\<rparr> = st'\<lparr>errors := y, RESERVED_NAMES := R\<rparr>" for st' y
    by (cases st') simp
  show ?thesis
  proof (cases "get_string (json_at (get_node schema path) ''$ref'')")
    case (Inl e)
    then show ?thesis
      unfolding visit_refs_node_def s
      by (simp add: Let_def loop[unfolded s, simplified] bind_map_result map_result_bind
            case_prod_unfold set_static_def)
  next
    case (Inr ref)
    then show ?thesis
      unfolding visit_refs_node_def s
      by (simp add: Let_def loop[unfolded s, simplified] bind_map_result map_result_bind store_target_static v'
            add_error_def case_prod_unfold set_static_def bind_assoc if_distrib[of "map_result (set_static R)"]
            split: option.splits sum.splits cong: if_cong)
  qed
qed


lemma visit_refs_static:
  "visit_refs fuel f url path (set_static R s) = map_result (set_static R) (visit_refs fuel f url path s)"
proof (induction fuel arbitrary: url path s)
  case 0
  then show ?case by simp
next
  case (Suc fuel)
  show ?case
    unfolding visit_refs.simps by (rule visit_refs_node_static) (rule Suc.IH)
qed

lemma resolve_refs_static:
  "resolve_refs fuel f schema url (st\<lparr>RESERVED_NAMES := R\<rparr>)
     = map_result (set_static R) (resolve_refs fuel f schema url st)"
  using visit_refs_static[of fuel f url "[]" R "(schema, st)"]
  by (simp add: resolve_refs_def set_static_def)

text \<open>
  C9.  A converter is built afresh for every call, the fetch function of
  \<open>json_schema_to_grammar\<close> is fixed, and no unordered container is iterated except to fill
  the set of reserved names.  The one thing a second run of the same process finds changed
  is the static \<open>RESERVED_NAMES\<close>: empty before the first call of \<open>is_reserved_name\<close>, filled
  ever after.  The result of \<open>json_schema_to_grammar\<close> is the same for both, so two runs on
  the same schema return the same text (or fail alike).
\<close>

theorem json_schema_to_grammar_deterministic:
  assumes "R1 = {} \<or> R1 = ALL_RESERVED_NAMES" and "R2 = {} \<or> R2 = ALL_RESERVED_NAMES"
  shows "json_schema_to_grammar fuel R1 schema = json_schema_to_grammar fuel R2 schema"
proof -
  let ?run = "bind (resolve_refs fuel (\<lambda>url. JObject []) schema ''input'' (SchemaConverter {} False))
                (\<lambda>x. bind (visit fuel (fst x) [] ((snd x)\<lparr>RESERVED_NAMES := ALL_RESERVED_NAMES\<rparr>))
                       (\<lambda>p. bind (check_errors (snd p)) (\<lambda>u. return (format_grammar (snd p)))))"
  have "json_schema_to_grammar fuel R schema = ?run" if "R = {} \<or> R = ALL_RESERVED_NAMES" for R
  proof -
    have c: "SchemaConverter R False = (SchemaConverter {} False)\<lparr>RESERVED_NAMES := R\<rparr>"
      by (simp add: SchemaConverter_def)
    show ?thesis
      unfolding json_schema_to_grammar_def c resolve_refs_static
      by (simp add: bind_map_result set_static_def case_prod_unfold visit_static[OF that] del: visit.simps)
  qed
  with assms show ?thesis by simp
qed

theorem json_schema_to_grammar_deterministic_witness:
  \<open>json_schema_to_grammar 2 {} (JObject [(''type'', JString ''boolean'')])
     = json_schema_to_grammar 2 ALL_RESERVED_NAMES (JObject [(''type'', JString ''boolean'')])\<close>
  using json_schema_to_grammar_deterministic[of "{}" ALL_RESERVED_NAMES] by simp

end
